theory Spec2Isabelle
  imports Complex_Main
begin

section \<open>Payment reconciliation of the shop bot\<close>

text \<open>
  A shallow embedding of \<^verbatim>\<open>services/nowpayments.py\<close> (the methods
  \<^verbatim>\<open>verify_ipn_signature\<close>, \<^verbatim>\<open>map_payment_status\<close>,
  \<^verbatim>\<open>process_ipn_callback\<close>, \<^verbatim>\<open>_award_loyalty_points\<close>,
  \<^verbatim>\<open>_process_digital_delivery\<close>), of the webhook handler
  \<^verbatim>\<open>payment_ipn\<close> of \<^verbatim>\<open>web/app.py\<close> and of the columns of
  \<^verbatim>\<open>database/models.py\<close> these methods read or write.

  Conventions of the embedding.
  \<^item> A Python \<^verbatim>\<open>str\<close> or \<^verbatim>\<open>bytes\<close> is a \<^typ>\<open>string\<close>: a list of
    8-bit characters. Code points above 255 are outside the model.
  \<^item> A Python \<^verbatim>\<open>float\<close> is the \<^typ>\<open>rat\<close> it denotes. A float operation
    rounds its exact result with \<open>round_double\<close>, which the model takes as a parameter.
    NaN and the infinities are outside the model.
  \<^item> A nullable column is an \<open>option\<close>; \<open>None\<close> is SQL NULL.
  \<^item> An exception is a value of type \<open>exn\<close>; a method whose body is wrapped in
    \<^verbatim>\<open>try/except Exception\<close> has one branch per place where it can raise.
  \<^item> Names with a leading underscore lose it: \<open>award_loyalty_points\<close>,
    \<open>process_digital_delivery\<close>.
\<close>

subsection \<open>Enumerations\<close>

datatype PaymentStatus =
  PENDING | WAITING | CONFIRMING | CONFIRMED | SENDING | PARTIALLY_PAID
  | FINISHED | FAILED | REFUNDED | EXPIRED

text \<open>\<^verbatim>\<open>OrderStatus.PENDING\<close> and \<^verbatim>\<open>OrderStatus.REFUNDED\<close> carry a prefix, since
  \<open>PaymentStatus\<close> has members of the same names.\<close>

datatype OrderStatus =
  ORDER_PENDING | PAID | PROCESSING | SHIPPED | DELIVERED | CANCELLED | ORDER_REFUNDED

datatype ProductType = DIGITAL | PHYSICAL

subsection \<open>Python values\<close>

text \<open>What \<^verbatim>\<open>json.loads\<close> returns, and what a request handler returns. A
  \<open>PDict\<close> lists the items of a \<^verbatim>\<open>dict\<close>, each key once.\<close>

datatype pyval =
  PNone
  | PBool bool
  | PInt int
  | PFloat rat
  | PStr string
  | PList "pyval list"
  | PTuple "pyval list"
  | PDict "(string \<times> pyval) list"

datatype exn =
  AttributeError
  | TypeError
  | ValueError
  | OverflowError
  | UnicodeDecodeError
  | JSONDecodeError
  | DBAPIError
  | HTTPException nat string

text \<open>\<^verbatim>\<open>not v\<close> is \<open>\<not> truthy v\<close>.\<close>

fun truthy :: "pyval \<Rightarrow> bool" where
  "truthy PNone = False"
| "truthy (PBool b) = b"
| "truthy (PInt i) = (i \<noteq> 0)"
| "truthy (PFloat x) = (x \<noteq> 0)"
| "truthy (PStr s) = (s \<noteq> [])"
| "truthy (PList xs) = (xs \<noteq> [])"
| "truthy (PTuple xs) = (xs \<noteq> [])"
| "truthy (PDict d) = (d \<noteq> [])"

text \<open>\<^verbatim>\<open>d.get(k, default)\<close> and \<^verbatim>\<open>d.get(k)\<close>.\<close>

definition dict_get_default :: "(string \<times> pyval) list \<Rightarrow> string \<Rightarrow> pyval \<Rightarrow> pyval" where
  "dict_get_default d k dflt = (case map_of d k of None \<Rightarrow> dflt | Some v \<Rightarrow> v)"

definition dict_get :: "(string \<times> pyval) list \<Rightarrow> string \<Rightarrow> pyval" where
  "dict_get d k = dict_get_default d k PNone"

text \<open>\<^verbatim>\<open>v.get(k)\<close> on an arbitrary value: only a \<^verbatim>\<open>dict\<close> has the method.\<close>

definition py_get :: "pyval \<Rightarrow> string \<Rightarrow> exn + pyval" where
  "py_get v k = (case v of PDict d \<Rightarrow> Inr (dict_get d k) | _ \<Rightarrow> Inl AttributeError)"

text \<open>\<^verbatim>\<open>str.lower()\<close> on 8-bit characters: A to Z, and the capital letters of Latin-1
  (192 to 222 without the multiplication sign 215), move up by 32.\<close>

definition lower_char :: "char \<Rightarrow> char" where
  "lower_char c =
     (let n = (of_char c :: nat) in
      if (65 \<le> n \<and> n \<le> 90) \<or> (192 \<le> n \<and> n \<le> 222 \<and> n \<noteq> 215)
      then char_of (n + 32) else c)"

definition lower :: "string \<Rightarrow> string" where
  "lower s = map lower_char s"

text \<open>\<^verbatim>\<open>int(x)\<close> of a float truncates towards zero.\<close>

definition py_int :: "rat \<Rightarrow> int" where
  "py_int x = (if x < 0 then \<lceil>x\<rceil> else \<lfloor>x\<rfloor>)"

text \<open>\<^verbatim>\<open>x or dflt\<close> for a nullable integer column: NULL and 0 are both false.\<close>

definition or_default :: "int option \<Rightarrow> int \<Rightarrow> int" where
  "or_default x dflt = (case x of None \<Rightarrow> dflt | Some v \<Rightarrow> if v = 0 then dflt else v)"

text \<open>The decimal digits of a natural number, as an f-string prints an \<^verbatim>\<open>id\<close>.\<close>

fun str_nat :: "nat \<Rightarrow> string" where
  "str_nat n =
     (if n < 10 then [''0123456789'' ! n]
      else str_nat (n div 10) @ [''0123456789'' ! (n mod 10)])"

declare str_nat.simps [simp del]

subsection \<open>Dates\<close>

text \<open>A \<^verbatim>\<open>datetime\<close> in UTC is the number of microseconds since 0001-01-01T00:00:00;
  the last representable day has day number 3652058 (9999-12-31). A \<^verbatim>\<open>timedelta\<close>
  is a number of microseconds. Both constructors raise \<^verbatim>\<open>OverflowError\<close> out of
  range.\<close>

type_synonym datetime = int

definition microseconds_per_day :: int where
  "microseconds_per_day = 86400000000"

definition timedelta_days :: "int \<Rightarrow> exn + int" where
  "timedelta_days d =
     (if \<bar>d\<bar> \<le> 999999999 then Inr (d * microseconds_per_day) else Inl OverflowError)"

definition datetime_add :: "datetime \<Rightarrow> int \<Rightarrow> exn + datetime" where
  "datetime_add t delta =
     (let r = t + delta in
      if 0 \<le> r \<and> r < 3652059 * microseconds_per_day then Inr r else Inl OverflowError)"

subsection \<open>Rows\<close>

text \<open>Only the columns the modelled methods touch. Each field is named
  \<open>Class_column\<close>.\<close>

record User =
  User_id :: nat
  User_loyalty_points :: "int option"
  User_total_spent :: "rat option"
  User_total_orders :: "int option"

record Product =
  Product_id :: nat
  Product_product_type :: "ProductType option"
  Product_digital_file_url :: "string option"
  Product_download_limit :: "int option"
  Product_download_expiry_days :: "int option"

text \<open>One entry of \<^verbatim>\<open>OrderItem.download_links\<close>; \<open>expires_at\<close> is stored in its
  ISO-8601 form.\<close>

record download_link =
  url :: string
  token :: string
  expires_at :: datetime
  download_limit :: int

record OrderItem =
  OrderItem_id :: nat
  OrderItem_order_id :: "nat option"
  OrderItem_product_id :: "nat option"
  OrderItem_download_links :: "download_link list option"
  OrderItem_download_expires_at :: "datetime option"

record Order =
  Order_id :: nat
  Order_order_number :: string
  Order_user_id :: "nat option"
  Order_status :: "OrderStatus option"
  Order_total_amount :: rat
  Order_payment_status :: "PaymentStatus option"
  Order_updated_at :: "datetime option"

text \<open>The String columns \<open>actually_paid_currency\<close>, \<open>txn_id\<close> and \<open>network\<close> of a
  payment are Python values: the object takes whatever the notification carries, and the
  store keeps \<open>PNone\<close> or a \<open>PStr\<close>.\<close>

record Payment =
  Payment_id :: nat
  Payment_order_id :: "nat option"
  Payment_payment_id :: "string option"
  Payment_payment_status :: "PaymentStatus option"
  Payment_actually_paid :: "rat option"
  Payment_actually_paid_currency :: pyval
  Payment_txn_id :: pyval
  Payment_network :: pyval
  Payment_updated_at :: "datetime option"

record LoyaltyTransaction =
  LoyaltyTransaction_user_id :: "nat option"
  LoyaltyTransaction_order_id :: "nat option"
  LoyaltyTransaction_points :: int
  LoyaltyTransaction_type :: string
  LoyaltyTransaction_description :: string
  LoyaltyTransaction_reference :: "string option"

subsection \<open>The store\<close>

text \<open>The tables, each in the order a query without ORDER BY returns its rows. Primary
  keys (\<open>_id\<close>) are unique in a table. While a method runs, the rows of \<open>users\<close>,
  \<open>orders\<close>, \<open>order_items\<close> and \<open>payments\<close> are the objects of its session; a
  commit writes them to the store or raises (see \<open>commit\<close> below).\<close>

record database =
  users :: "User list"
  products :: "Product list"
  orders :: "Order list"
  order_items :: "OrderItem list"
  payments :: "Payment list"
  loyalty_transactions :: "LoyaltyTransaction list"

text \<open>The relationships \<^verbatim>\<open>payment.order\<close>, \<^verbatim>\<open>order.user\<close>, \<^verbatim>\<open>order.items\<close>
  and \<^verbatim>\<open>item.product\<close>: \<open>None\<close> where the foreign key is NULL or dangling.\<close>

definition Payment_order :: "database \<Rightarrow> Payment \<Rightarrow> Order option" where
  "Payment_order d p =
     (case Payment_order_id p of
        None \<Rightarrow> None
      | Some k \<Rightarrow> find (\<lambda>ord. Order_id ord = k) (orders d))"

definition Order_user :: "database \<Rightarrow> Order \<Rightarrow> User option" where
  "Order_user d ord =
     (case Order_user_id ord of
        None \<Rightarrow> None
      | Some k \<Rightarrow> find (\<lambda>u. User_id u = k) (users d))"

definition Order_items :: "database \<Rightarrow> Order \<Rightarrow> OrderItem list" where
  "Order_items d ord = filter (\<lambda>it. OrderItem_order_id it = Some (Order_id ord)) (order_items d)"

definition OrderItem_product :: "database \<Rightarrow> OrderItem \<Rightarrow> Product option" where
  "OrderItem_product d it =
     (case OrderItem_product_id it of
        None \<Rightarrow> None
      | Some k \<Rightarrow> find (\<lambda>pr. Product_id pr = k) (products d))"

text \<open>Writing a changed object back: the row with its primary key is replaced.\<close>

definition put_user :: "User \<Rightarrow> database \<Rightarrow> database" where
  "put_user u d = d\<lparr>users := map (\<lambda>r. if User_id r = User_id u then u else r) (users d)\<rparr>"

definition put_order :: "Order \<Rightarrow> database \<Rightarrow> database" where
  "put_order ord d =
     d\<lparr>orders := map (\<lambda>r. if Order_id r = Order_id ord then ord else r) (orders d)\<rparr>"

definition put_item :: "OrderItem \<Rightarrow> database \<Rightarrow> database" where
  "put_item it d =
     d\<lparr>order_items :=
         map (\<lambda>r. if OrderItem_id r = OrderItem_id it then it else r) (order_items d)\<rparr>"

definition put_payment :: "Payment \<Rightarrow> database \<Rightarrow> database" where
  "put_payment p d =
     d\<lparr>payments := map (\<lambda>r. if Payment_id r = Payment_id p then p else r) (payments d)\<rparr>"

subsection \<open>Settings, library functions and the outside world\<close>

text \<open>What the methods take from outside the repository: two settings, the functions
  of the standard library and of the database driver whose results the source does not
  fix, and the readings of the clock and of the random source.
  \<^item> \<open>hmac_sha512_hexdigest key msg\<close> is \<^verbatim>\<open>hmac.new(key, msg, hashlib.sha512).hexdigest()\<close>.
  \<^item> \<open>utf8_decodable body\<close> says that \<^verbatim>\<open>body.decode()\<close> returns; encoding the result
    gives \<open>body\<close> back.
  \<^item> \<open>json_loads\<close> is \<open>None\<close> where \<^verbatim>\<open>json.loads\<close> raises.
  \<^item> \<open>float_of_str\<close> is \<^verbatim>\<open>float\<close> on a \<^verbatim>\<open>str\<close>, \<open>None\<close> where it raises.
  \<^item> \<open>round_double x\<close> is the double nearest to \<open>x\<close>, for \<open>x\<close> in the range of the
    doubles.
  \<^item> \<open>bind_non_str v\<close> is how the store compares a String column with a bound parameter
    \<open>v\<close> that is not a \<^verbatim>\<open>str\<close>: \<open>None\<close> when the statement raises.
  \<^item> \<open>storable_int i\<close> says that \<open>i\<close> is in the range of the store's INTEGER columns.
  \<^item> \<open>text_of_number v\<close> is the text the store keeps when the number \<open>v\<close> is written to
    a String column.
  \<^item> \<open>exn_str\<close> is \<^verbatim>\<open>str(e)\<close>.\<close>

record env =
  ipn_secret :: string
  webhook_url :: string
  hmac_sha512_hexdigest :: "string \<Rightarrow> string \<Rightarrow> string"
  utf8_decodable :: "string \<Rightarrow> bool"
  json_loads :: "string \<Rightarrow> pyval option"
  float_of_str :: "string \<Rightarrow> rat option"
  round_double :: "rat \<Rightarrow> rat"
  bind_non_str :: "pyval \<Rightarrow> (string option \<Rightarrow> bool) option"
  storable_int :: "int \<Rightarrow> bool"
  text_of_number :: "pyval \<Rightarrow> string"
  exn_str :: "exn \<Rightarrow> string"

text \<open>The readings one call of \<^verbatim>\<open>process_ipn_callback\<close> takes:
  \<^verbatim>\<open>datetime.now(timezone.utc)\<close> where \<^verbatim>\<open>payment.updated_at\<close> is set, where
  \<^verbatim>\<open>order.updated_at\<close> is set, and in the \<open>i\<close>-th round of the delivery loop; and
  \<^verbatim>\<open>uuid.uuid4().hex\<close> in the \<open>i\<close>-th round of the delivery loop.\<close>

record world =
  now_payment :: datetime
  now_order :: datetime
  now_item :: "nat \<Rightarrow> datetime"
  uuid4_hex :: "nat \<Rightarrow> string"

text \<open>The state: the rows, and \<open>calls\<close>, which records the entry into each of three
  methods. \<open>calls\<close> is instrumentation: the source has no counterpart, and no modelled
  code reads it.\<close>

datatype call =
  Call_process_ipn_callback
  | Call_award_loyalty_points nat
  | Call_process_digital_delivery nat

record state =
  db :: database
  calls :: "call list"

definition enter :: "call \<Rightarrow> state \<Rightarrow> state" where
  "enter c s = s\<lparr>calls := calls s @ [c]\<rparr>"

subsection \<open>The gateway adapter\<close>

text \<open>\<^verbatim>\<open>hmac.compare_digest\<close> on two \<^verbatim>\<open>str\<close> raises \<^verbatim>\<open>TypeError\<close> unless both
  are ASCII.\<close>

definition is_ascii :: "string \<Rightarrow> bool" where
  "is_ascii s = list_all (\<lambda>c. \<not> digit7 c) s"

definition compare_digest :: "string \<Rightarrow> string \<Rightarrow> exn + bool" where
  "compare_digest a b = (if is_ascii a \<and> is_ascii b then Inr (a = b) else Inl TypeError)"

text \<open>\<^verbatim>\<open>verify_ipn_signature(payload, signature)\<close>; \<open>payload\<close> is the decoded body, which
  the method encodes again. An exception gives \<open>False\<close>.\<close>

definition verify_ipn_signature :: "env \<Rightarrow> string \<Rightarrow> string \<Rightarrow> bool" where
  "verify_ipn_signature e payload signature =
     (let expected_signature = hmac_sha512_hexdigest e (ipn_secret e) payload in
      case compare_digest expected_signature signature of
        Inl ex \<Rightarrow> False
      | Inr b \<Rightarrow> b)"

definition status_mapping :: "(string \<times> PaymentStatus) list" where
  "status_mapping =
     [(''waiting'', WAITING),
      (''confirming'', CONFIRMING),
      (''confirmed'', CONFIRMED),
      (''sending'', SENDING),
      (''partially_paid'', PARTIALLY_PAID),
      (''finished'', FINISHED),
      (''failed'', FAILED),
      (''refunded'', REFUNDED),
      (''expired'', EXPIRED)]"

text \<open>\<^verbatim>\<open>map_payment_status\<close>: a value that is no \<^verbatim>\<open>str\<close> has no \<^verbatim>\<open>lower\<close>.\<close>

definition map_payment_status :: "pyval \<Rightarrow> exn + PaymentStatus" where
  "map_payment_status nowpayments_status =
     (case nowpayments_status of
        PStr s \<Rightarrow>
          Inr (case map_of status_mapping (lower s) of None \<Rightarrow> PENDING | Some st \<Rightarrow> st)
      | _ \<Rightarrow> Inl AttributeError)"

subsection \<open>Fulfillment handlers\<close>

text \<open>\<^verbatim>\<open>_award_loyalty_points(order)\<close>. The user is an object of the caller's session,
  so each \<^verbatim>\<open>+=\<close> that ran stays when a later one raises; the LoyaltyTransaction is
  added and committed through a session of the handler's own, and that commit raises when
  the points are outside the store's INTEGER range. Every exception is caught and logged.\<close>

definition award_loyalty_points :: "env \<Rightarrow> Order \<Rightarrow> state \<Rightarrow> state" where
  "award_loyalty_points e ord s0 =
     (let s = enter (Call_award_loyalty_points (Order_id ord)) s0;
          points_earned = py_int (Order_total_amount ord)
      in
      if points_earned \<le> 0 then s
      else
        case Order_user (db s) ord of
          None \<Rightarrow> s
        | Some u \<Rightarrow>
            (case User_loyalty_points u of
               None \<Rightarrow> s
             | Some lp \<Rightarrow>
                 let u1 = u\<lparr>User_loyalty_points := Some (lp + points_earned)\<rparr>;
                     s1 = s\<lparr>db := put_user u1 (db s)\<rparr>
                 in
                 (case User_total_spent u1 of
                    None \<Rightarrow> s1
                  | Some ts \<Rightarrow>
                      let u2 = u1\<lparr>User_total_spent :=
                                     Some (round_double e (ts + Order_total_amount ord))\<rparr>;
                          s2 = s1\<lparr>db := put_user u2 (db s1)\<rparr>
                      in
                      (case User_total_orders u2 of
                         None \<Rightarrow> s2
                       | Some n \<Rightarrow>
                           let u3 = u2\<lparr>User_total_orders := Some (n + 1)\<rparr>;
                               s3 = s2\<lparr>db := put_user u3 (db s2)\<rparr>;
                               loyalty_transaction =
                                 \<lparr>LoyaltyTransaction_user_id = Order_user_id ord,
                                  LoyaltyTransaction_order_id = Some (Order_id ord),
                                  LoyaltyTransaction_points = points_earned,
                                  LoyaltyTransaction_type = ''earned'',
                                  LoyaltyTransaction_description =
                                    ''Points earned from order '' @ Order_order_number ord,
                                  LoyaltyTransaction_reference =
                                    Some (''order_'' @ str_nat (Order_id ord))\<rparr>
                           in
                           if storable_int e points_earned then
                             s3\<lparr>db := (db s3)\<lparr>loyalty_transactions :=
                                   loyalty_transactions (db s3) @ [loyalty_transaction]\<rparr>\<rparr>
                           else s3))))"

text \<open>The expiry date of one round: \<^verbatim>\<open>datetime.now(timezone.utc) +
  timedelta(days=item.product.download_expiry_days or 30)\<close>.\<close>

definition expiry_date_of :: "world \<Rightarrow> nat \<Rightarrow> Product \<Rightarrow> exn + datetime" where
  "expiry_date_of w i product =
     (case timedelta_days (or_default (Product_download_expiry_days product) 30) of
        Inl ex \<Rightarrow> Inl ex
      | Inr delta \<Rightarrow> datetime_add (now_item w i) delta)"

text \<open>The list \<^verbatim>\<open>download_links\<close> of one round: one link when
  \<^verbatim>\<open>item.product.digital_file_url\<close> is neither NULL nor empty, none otherwise.\<close>

definition download_links_of ::
    "env \<Rightarrow> world \<Rightarrow> nat \<Rightarrow> Product \<Rightarrow> datetime \<Rightarrow> download_link list" where
  "download_links_of e w i product expiry_date =
     (case Product_digital_file_url product of
        None \<Rightarrow> []
      | Some file_url \<Rightarrow>
          if file_url = [] then []
          else
            let download_token = uuid4_hex w i in
            [\<lparr>url = webhook_url e @ ''/download/'' @ download_token,
              token = download_token,
              expires_at = expiry_date,
              download_limit = or_default (Product_download_limit product) 5\<rparr>])"

text \<open>The loop \<^verbatim>\<open>for item in order.items\<close>, \<open>i\<close> counting its rounds. \<open>Inl\<close> is an
  exception leaving the loop, with the rows as the rounds before it left them.\<close>

fun delivery_loop ::
    "env \<Rightarrow> world \<Rightarrow> nat \<Rightarrow> OrderItem list \<Rightarrow> database \<Rightarrow> (exn \<times> database) + database" where
  "delivery_loop e w i [] d = Inr d"
| "delivery_loop e w i (item # items) d =
     (case OrderItem_product d item of
        None \<Rightarrow> Inl (AttributeError, d)
      | Some product \<Rightarrow>
          if Product_product_type product = Some DIGITAL then
            (case expiry_date_of w i product of
               Inl ex \<Rightarrow> Inl (ex, d)
             | Inr expiry_date \<Rightarrow>
                 let download_links = download_links_of e w i product expiry_date;
                     item' = item\<lparr>OrderItem_download_links := Some download_links,
                                  OrderItem_download_expires_at := Some expiry_date\<rparr>
                 in delivery_loop e w (Suc i) items (put_item item' d))
          else delivery_loop e w (Suc i) items d)"

text \<open>\<^verbatim>\<open>_process_digital_delivery(order)\<close>: the items are objects of the caller's
  session; the handler's own session commits nothing. An exception is caught and logged,
  and what the loop changed before it stays.\<close>

definition process_digital_delivery :: "env \<Rightarrow> world \<Rightarrow> Order \<Rightarrow> state \<Rightarrow> state" where
  "process_digital_delivery e w ord s0 =
     (let s = enter (Call_process_digital_delivery (Order_id ord)) s0 in
      case delivery_loop e w 0 (Order_items (db s) ord) (db s) of
        Inl (ex, d') \<Rightarrow> s\<lparr>db := d'\<rparr>
      | Inr d' \<Rightarrow> s\<lparr>db := d'\<rparr>)"

subsection \<open>The reconciliation engine\<close>

text \<open>\<^verbatim>\<open>float(v)\<close>. An \<^verbatim>\<open>int\<close> too large for a double raises.\<close>

definition py_float :: "env \<Rightarrow> pyval \<Rightarrow> exn + rat" where
  "py_float e v =
     (case v of
        PNone \<Rightarrow> Inl TypeError
      | PBool b \<Rightarrow> Inr (if b then 1 else 0)
      | PInt i \<Rightarrow>
          if \<bar>i\<bar> < 2 ^ 1024 - 2 ^ 970 then Inr (round_double e (of_int i))
          else Inl OverflowError
      | PFloat x \<Rightarrow> Inr x
      | PStr s \<Rightarrow> (case float_of_str e s of None \<Rightarrow> Inl ValueError | Some x \<Rightarrow> Inr x)
      | PList xs \<Rightarrow> Inl TypeError
      | PTuple xs \<Rightarrow> Inl TypeError
      | PDict d \<Rightarrow> Inl TypeError)"

text \<open>\<^verbatim>\<open>db.query(Payment).filter(Payment.payment_id == payment_id).first()\<close>.\<close>

definition query_payment :: "env \<Rightarrow> pyval \<Rightarrow> database \<Rightarrow> exn + Payment option" where
  "query_payment e payment_id d =
     (case payment_id of
        PStr s \<Rightarrow> Inr (find (\<lambda>p. Payment_payment_id p = Some s) (payments d))
      | _ \<Rightarrow>
          (case bind_non_str e payment_id of
             None \<Rightarrow> Inl DBAPIError
           | Some f \<Rightarrow> Inr (find (\<lambda>p. f (Payment_payment_id p)) (payments d))))"

text \<open>The assignments to the payment, up to \<^verbatim>\<open>payment.updated_at\<close>.\<close>

definition update_payment_details ::
    "env \<Rightarrow> world \<Rightarrow> (string \<times> pyval) list \<Rightarrow> PaymentStatus \<Rightarrow> Payment \<Rightarrow> exn + Payment" where
  "update_payment_details e w ipn_data new_status payment =
     (case py_float e (dict_get_default ipn_data ''actually_paid'' (PInt 0)) of
        Inl ex \<Rightarrow> Inl ex
      | Inr actually_paid \<Rightarrow>
          (case py_get (dict_get_default ipn_data ''outcome'' (PDict [])) ''txid'' of
             Inl ex \<Rightarrow> Inl ex
           | Inr txid \<Rightarrow>
               (case py_get (dict_get_default ipn_data ''outcome'' (PDict [])) ''network'' of
                  Inl ex \<Rightarrow> Inl ex
                | Inr network \<Rightarrow>
                    Inr (payment\<lparr>Payment_payment_status := Some new_status,
                                 Payment_actually_paid := Some actually_paid,
                                 Payment_actually_paid_currency :=
                                   dict_get ipn_data ''actually_paid_currency'',
                                 Payment_txn_id := txid,
                                 Payment_network := network,
                                 Payment_updated_at := Some (now_payment w)\<rparr>))))"

text \<open>Writing a Python value to a String column: NULL and text as they are, a number as
  the text the store makes of it; a list, a tuple or a dict cannot be bound and the
  statement raises.\<close>

definition bind_string :: "env \<Rightarrow> pyval \<Rightarrow> exn + pyval" where
  "bind_string e v =
     (case v of
        PNone \<Rightarrow> Inr PNone
      | PBool b \<Rightarrow> Inr (PStr (text_of_number e v))
      | PInt i \<Rightarrow> Inr (PStr (text_of_number e v))
      | PFloat x \<Rightarrow> Inr (PStr (text_of_number e v))
      | PStr t \<Rightarrow> Inr (PStr t)
      | PList xs \<Rightarrow> Inl DBAPIError
      | PTuple xs \<Rightarrow> Inl DBAPIError
      | PDict d \<Rightarrow> Inl DBAPIError)"

text \<open>The UPDATE of a flush sets only the attributes whose value differs from the loaded
  one.\<close>

definition flush_string :: "env \<Rightarrow> pyval \<Rightarrow> pyval \<Rightarrow> exn + pyval" where
  "flush_string e loaded v = (if v = loaded then Inr v else bind_string e v)"

definition flush_int :: "env \<Rightarrow> int option \<Rightarrow> int option \<Rightarrow> bool" where
  "flush_int e loaded v =
     (v = loaded \<or> (case v of None \<Rightarrow> True | Some i \<Rightarrow> storable_int e i))"

text \<open>The row the store keeps of the payment object \<open>payment'\<close> that was loaded as
  \<open>payment\<close>.\<close>

definition flush_payment :: "env \<Rightarrow> Payment \<Rightarrow> Payment \<Rightarrow> exn + Payment" where
  "flush_payment e payment payment' =
     (case flush_string e (Payment_actually_paid_currency payment)
             (Payment_actually_paid_currency payment') of
        Inl ex \<Rightarrow> Inl ex
      | Inr currency \<Rightarrow>
          (case flush_string e (Payment_txn_id payment) (Payment_txn_id payment') of
             Inl ex \<Rightarrow> Inl ex
           | Inr txid \<Rightarrow>
               (case flush_string e (Payment_network payment) (Payment_network payment') of
                  Inl ex \<Rightarrow> Inl ex
                | Inr network \<Rightarrow>
                    Inr (payment'\<lparr>Payment_actually_paid_currency := currency,
                                  Payment_txn_id := txid,
                                  Payment_network := network\<rparr>))))"

text \<open>Whether the store takes the Integer columns of the user object \<open>u\<close> that was loaded
  as \<open>loaded\<close>.\<close>

definition flush_user :: "env \<Rightarrow> User \<Rightarrow> User \<Rightarrow> bool" where
  "flush_user e loaded u =
     (flush_int e (User_loyalty_points loaded) (User_loyalty_points u)
      \<and> flush_int e (User_total_orders loaded) (User_total_orders u))"

text \<open>The \<^verbatim>\<open>db.commit()\<close> that ends \<^verbatim>\<open>process_ipn_callback\<close>. \<open>s\<close> is the state
  when the session was opened, \<open>s'\<close> the state the body has reached, with the payment
  object \<open>payment'\<close> that was loaded as \<open>payment\<close>. When the flush raises, the call
  returns \<open>False\<close> and the session is closed: its objects are dropped, and of the rows
  only the loyalty transactions, committed by the handler's own session, stay.\<close>

definition commit :: "env \<Rightarrow> state \<Rightarrow> Payment \<Rightarrow> Payment \<Rightarrow> state \<Rightarrow> bool \<times> state" where
  "commit e s payment payment' s' =
     (let rolled_back =
            \<lparr>db = (db s)\<lparr>loyalty_transactions := loyalty_transactions (db s')\<rparr>,
             calls = calls s'\<rparr>
      in
      case flush_payment e payment payment' of
        Inl ex \<Rightarrow> (False, rolled_back)
      | Inr stored \<Rightarrow>
          if list_all2 (flush_user e) (users (db s)) (users (db s'))
          then (True, s'\<lparr>db := put_payment stored (db s')\<rparr>)
          else (False, rolled_back))"

text \<open>The branch of \<^verbatim>\<open>process_ipn_callback\<close> under
  \<^verbatim>\<open>if new_status == PaymentStatus.FINISHED and old_status != PaymentStatus.FINISHED\<close>,
  from the order \<^verbatim>\<open>payment.order\<close> on.\<close>

definition on_payment_finished :: "env \<Rightarrow> world \<Rightarrow> Order \<Rightarrow> state \<Rightarrow> state" where
  "on_payment_finished e w ord s1 =
     (let ord' = ord\<lparr>Order_payment_status := Some FINISHED,
                     Order_status := Some PAID,
                     Order_updated_at := Some (now_order w)\<rparr>;
          s2 = s1\<lparr>db := put_order ord' (db s1)\<rparr>;
          s3 = award_loyalty_points e ord' s2
      in
      if Order_items (db s3) ord' \<noteq> [] then process_digital_delivery e w ord' s3 else s3)"

text \<open>\<^verbatim>\<open>process_ipn_callback(ipn_data)\<close>. Every exception is caught and gives \<open>False\<close>;
  the session is then closed without a commit, so the rows are as before the call. The
  exceptions before the handlers leave \<open>s\<close>; the final commit is \<open>commit\<close>.\<close>

definition process_ipn_callback :: "env \<Rightarrow> world \<Rightarrow> pyval \<Rightarrow> state \<Rightarrow> bool \<times> state" where
  "process_ipn_callback e w ipn_data s0 =
     (let s = enter Call_process_ipn_callback s0 in
      case ipn_data of
        PDict d \<Rightarrow>
          (let payment_id = dict_get d ''payment_id'';
               payment_status = dict_get d ''payment_status''
           in
           if \<not> truthy payment_id \<or> \<not> truthy payment_status then (False, s)
           else
             case query_payment e payment_id (db s) of
               Inl ex \<Rightarrow> (False, s)
             | Inr None \<Rightarrow> (False, s)
             | Inr (Some payment) \<Rightarrow>
                 (let old_status = Payment_payment_status payment in
                  case map_payment_status payment_status of
                    Inl ex \<Rightarrow> (False, s)
                  | Inr new_status \<Rightarrow>
                      (case update_payment_details e w d new_status payment of
                         Inl ex \<Rightarrow> (False, s)
                       | Inr payment' \<Rightarrow>
                           (let s1 = s\<lparr>db := put_payment payment' (db s)\<rparr> in
                            if new_status = FINISHED \<and> old_status \<noteq> Some FINISHED then
                              (case Payment_order (db s1) payment' of
                                 None \<Rightarrow> (False, s)
                               | Some ord \<Rightarrow>
                                   commit e s payment payment'
                                     (on_payment_finished e w ord s1))
                            else commit e s payment payment' s1))))
      | _ \<Rightarrow> (False, s))"

subsection \<open>The webhook\<close>

record request =
  header_x_nowpayments_sig :: "string option"
  body :: string

text \<open>The value of \<^verbatim>\<open>return {"status": "error", "message": str(e)}, 500\<close>.\<close>

definition error_500 :: "env \<Rightarrow> exn \<Rightarrow> pyval" where
  "error_500 e ex =
     PTuple [PDict [(''status'', PStr ''error''), (''message'', PStr (exn_str e ex))], PInt 500]"

text \<open>\<^verbatim>\<open>payment_ipn(request)\<close>: the value the handler returns. The
  \<^verbatim>\<open>HTTPException\<close> it raises is caught by its own \<^verbatim>\<open>except Exception\<close>, so the
  handler never raises. The rate limit of the decorator is not modelled.\<close>

definition payment_ipn :: "env \<Rightarrow> world \<Rightarrow> request \<Rightarrow> state \<Rightarrow> pyval \<times> state" where
  "payment_ipn e w req s =
     (case header_x_nowpayments_sig req of
        None \<Rightarrow> (error_500 e (HTTPException 400 ''Invalid signature''), s)
      | Some signature \<Rightarrow>
          if signature = [] then (error_500 e (HTTPException 400 ''Invalid signature''), s)
          else if \<not> utf8_decodable e (body req) then (error_500 e UnicodeDecodeError, s)
          else if \<not> verify_ipn_signature e (body req) signature
          then (error_500 e (HTTPException 400 ''Invalid signature''), s)
          else
            (case json_loads e (body req) of
               None \<Rightarrow> (error_500 e JSONDecodeError, s)
             | Some data \<Rightarrow>
                 (case process_ipn_callback e w data s of
                    (success, s') \<Rightarrow>
                      if success then (PDict [(''status'', PStr ''ok'')], s')
                      else (PTuple [PDict [(''status'', PStr ''error'')], PInt 400], s'))))"

text \<open>What FastAPI sends for a value a path operation returns, the route declaring no
  status code: status 200 and the JSON encoding of the value, in which a tuple is an
  array.\<close>

fun jsonable :: "pyval \<Rightarrow> pyval" where
  "jsonable (PTuple xs) = PList (map jsonable xs)"
| "jsonable (PList xs) = PList (map jsonable xs)"
| "jsonable (PDict d) = PDict (map (\<lambda>kv. (fst kv, jsonable (snd kv))) d)"
| "jsonable v = v"

definition fastapi_response :: "pyval \<Rightarrow> nat \<times> pyval" where
  "fastapi_response v = (200, jsonable v)"

subsection \<open>A shop to compute with\<close>

text \<open>One customer, one digital product, one order of 50.00 with one line item and one
  payment \<open>np_123\<close> waiting for its coins.\<close>

definition shop_env :: env where
  "shop_env =
     \<lparr>ipn_secret = ''s3cret'',
      webhook_url = ''https://shop.example'',
      hmac_sha512_hexdigest = (\<lambda>key msg. ''0f'' @ key),
      utf8_decodable = (\<lambda>b. True),
      json_loads = (\<lambda>b. if b = ''{}'' then Some (PDict []) else None),
      float_of_str = (\<lambda>s. None),
      round_double = (\<lambda>x. x),
      bind_non_str = (\<lambda>v. None),
      storable_int = (\<lambda>i. - (2 ^ 63) \<le> i \<and> i < 2 ^ 63),
      text_of_number = (\<lambda>v. case v of PInt i \<Rightarrow> str_nat (nat i) | _ \<Rightarrow> []),
      exn_str = (\<lambda>ex. [])\<rparr>"

definition shop_world :: world where
  "shop_world =
     \<lparr>now_payment = 1000, now_order = 1001, now_item = (\<lambda>i. 2000 + int i),
      uuid4_hex = (\<lambda>i. ''c0ffee'')\<rparr>"

definition shop_user :: User where
  "shop_user =
     \<lparr>User_id = 7, User_loyalty_points = Some 0, User_total_spent = Some 0,
      User_total_orders = Some 0\<rparr>"

definition shop_product :: Product where
  "shop_product =
     \<lparr>Product_id = 3, Product_product_type = Some DIGITAL,
      Product_digital_file_url = Some ''files/book.pdf'',
      Product_download_limit = None, Product_download_expiry_days = None\<rparr>"

definition shop_item :: OrderItem where
  "shop_item =
     \<lparr>OrderItem_id = 11, OrderItem_order_id = Some 1, OrderItem_product_id = Some 3,
      OrderItem_download_links = None, OrderItem_download_expires_at = None\<rparr>"

definition shop_order :: Order where
  "shop_order =
     \<lparr>Order_id = 1, Order_order_number = ''ORD-20240101-ABC123'', Order_user_id = Some 7,
      Order_status = Some ORDER_PENDING, Order_total_amount = 50,
      Order_payment_status = Some PENDING, Order_updated_at = None\<rparr>"

definition shop_payment :: Payment where
  "shop_payment =
     \<lparr>Payment_id = 5, Payment_order_id = Some 1, Payment_payment_id = Some ''np_123'',
      Payment_payment_status = Some WAITING, Payment_actually_paid = Some 0,
      Payment_actually_paid_currency = PNone, Payment_txn_id = PNone,
      Payment_network = PNone, Payment_updated_at = None\<rparr>"

definition shop_db :: database where
  "shop_db =
     \<lparr>users = [shop_user], products = [shop_product], orders = [shop_order],
      order_items = [shop_item], payments = [shop_payment], loyalty_transactions = []\<rparr>"

definition shop :: state where
  "shop = \<lparr>db = shop_db, calls = []\<rparr>"

definition notification :: "string \<Rightarrow> string \<Rightarrow> (string \<times> pyval) list" where
  "notification payment_id payment_status =
     [(''payment_id'', PStr payment_id),
      (''payment_status'', PStr payment_status),
      (''actually_paid'', PFloat (1 / 4)),
      (''actually_paid_currency'', PStr ''btc'')]"

text \<open>The same shop when every product of the cart had vanished at checkout: the order
  has no line item and a total of 0.\<close>

definition empty_order_shop :: state where
  "empty_order_shop =
     \<lparr>db = shop_db\<lparr>orders := [shop_order\<lparr>Order_total_amount := 0\<rparr>], order_items := []\<rparr>,
      calls = []\<rparr>"

text \<open>The shop after the notification \<open>finished\<close> for \<open>np_123\<close> has been applied, and
  the payment row it then holds.\<close>

definition settled_shop :: state where
  "settled_shop =
     snd (process_ipn_callback shop_env shop_world (PDict (notification ''np_123'' ''finished''))
            shop)"

definition settled_payment :: Payment where
  "settled_payment =
     shop_payment\<lparr>Payment_payment_status := Some FINISHED,
                   Payment_actually_paid := Some (1 / 4),
                   Payment_actually_paid_currency := PStr ''btc'',
                   Payment_updated_at := Some 1000\<rparr>"

text \<open>A later call reads a later clock.\<close>

definition later_world :: world where
  "later_world = shop_world\<lparr>now_payment := 5000\<rparr>"

text \<open>The shop when the digital product has no file to download.\<close>

definition urlless_shop :: state where
  "urlless_shop =
     \<lparr>db = shop_db\<lparr>products := [shop_product\<lparr>Product_digital_file_url := None\<rparr>]\<rparr>,
      calls = []\<rparr>"

text \<open>Three requests to the webhook: one without the signature header, one with a
  signature that is not the digest of its body, and one with the right signature whose
  body is an object without \<open>payment_id\<close>.\<close>

definition unsigned_request :: request where
  "unsigned_request =
     \<lparr>header_x_nowpayments_sig = None,
      body = ''{}''\<rparr>"

definition forged_request :: request where
  "forged_request =
     \<lparr>header_x_nowpayments_sig = Some ''deadbeef'',
      body = ''{}''\<rparr>"

definition signed_request :: request where
  "signed_request =
     \<lparr>header_x_nowpayments_sig = Some ''0fs3cret'',
      body = ''{}''\<rparr>"

text \<open>An order of the shop that names no user, and the shop when the \<open>total_spent\<close> of
  its user is NULL.\<close>

definition userless_order :: Order where
  "userless_order = shop_order\<lparr>Order_user_id := None\<rparr>"

definition unspent_shop :: state where
  "unspent_shop =
     \<lparr>db = shop_db\<lparr>users := [shop_user\<lparr>User_total_spent := None\<rparr>]\<rparr>, calls = []\<rparr>"



subsection \<open>Vocabulary of the properties\<close>

text \<open>Entries of \<open>calls\<close> that are entries into a fulfillment handler.\<close>

fun is_award :: "call \<Rightarrow> bool" where
  "is_award (Call_award_loyalty_points k) = True"
| "is_award c = False"

fun is_delivery :: "call \<Rightarrow> bool" where
  "is_delivery (Call_process_digital_delivery k) = True"
| "is_delivery c = False"

text \<open>What C7, as amended, says round \<open>i\<close> of the delivery loop leaves of a line item
  whose product is \<open>product\<close>. This definition follows the claim, not the source; the
  theorem for C7 compares the loop with it.\<close>

definition delivered :: "env \<Rightarrow> world \<Rightarrow> nat \<Rightarrow> Product \<Rightarrow> OrderItem \<Rightarrow> OrderItem" where
  "delivered e w i product item =
     (if Product_product_type product = Some DIGITAL then
        (let expiry_date =
               now_item w i
               + or_default (Product_download_expiry_days product) 30 * microseconds_per_day
         in item\<lparr>OrderItem_download_links :=
                   Some (if Product_digital_file_url product = None
                            \<or> Product_digital_file_url product = Some []
                         then []
                         else [\<lparr>url = webhook_url e @ ''/download/'' @ uuid4_hex w i,
                                token = uuid4_hex w i,
                                expires_at = expiry_date,
                                download_limit = or_default (Product_download_limit product) 5\<rparr>]),
                 OrderItem_download_expires_at := Some expiry_date\<rparr>)
      else item)"

section \<open>Properties\<close>

subsection \<open>Lookups and frames\<close>

lemma state_update_eq:
  "(s::state)\<lparr>calls := c, db := d\<rparr> = \<lparr>db = d, calls = c\<rparr>"
  "(s::state)\<lparr>db := d, calls := c\<rparr> = \<lparr>db = d, calls = c\<rparr>"
  "(s::state)\<lparr>calls := c\<rparr> = \<lparr>db = db s, calls = c\<rparr>"
  "(s::state)\<lparr>db := d\<rparr> = \<lparr>db = d, calls = calls s\<rparr>"
  by (cases s; simp)+

lemma find_map_replace:
  assumes "find (\<lambda>r. key r = k) xs = Some x" and "key y = k"
  shows "find (\<lambda>r. key r = k) (map (\<lambda>r. if key r = k then y else r) xs) = Some y"
  using assms by (induction xs) (auto split: if_splits)

lemma find_map_other:
  assumes "k' \<noteq> k" and "key y = k"
  shows "find (\<lambda>r. key r = k') (map (\<lambda>r. if key r = k then y else r) xs)
         = find (\<lambda>r. key r = k') xs"
  using assms by (induction xs) auto

lemma find_Some_key: "find (\<lambda>r. key r = k) xs = Some x \<Longrightarrow> key x = k"
  by (induction xs) (auto split: if_splits)

lemma award_loyalty_points_calls:
  "calls (award_loyalty_points e ord s) = calls s @ [Call_award_loyalty_points (Order_id ord)]"
  by (simp add: award_loyalty_points_def enter_def Let_def put_user_def split: option.splits)

lemma award_loyalty_points_frame:
  "payments (db (award_loyalty_points e ord s)) = payments (db s)"
  "orders (db (award_loyalty_points e ord s)) = orders (db s)"
  "order_items (db (award_loyalty_points e ord s)) = order_items (db s)"
  "products (db (award_loyalty_points e ord s)) = products (db s)"
  by (simp_all add: award_loyalty_points_def enter_def Let_def put_user_def split: option.splits)

lemma OrderItem_product_cong:
  "products d' = products d \<Longrightarrow> OrderItem_product d' it = OrderItem_product d it"
  by (cases "OrderItem_product_id it") (simp_all add: OrderItem_product_def)

lemma delivery_loop_frame:
  "delivery_loop e w i items d = Inr d' \<or> delivery_loop e w i items d = Inl (ex, d') \<Longrightarrow>
     payments d' = payments d \<and> orders d' = orders d \<and> users d' = users d \<and>
     products d' = products d \<and> loyalty_transactions d' = loyalty_transactions d \<and>
     map OrderItem_id (order_items d') = map OrderItem_id (order_items d)"
proof (induction items arbitrary: i d)
  case Nil
  then show ?case by simp
next
  case (Cons item items)
  show ?case
  proof (cases "OrderItem_product d item")
    case None
    with Cons.prems show ?thesis by simp
  next
    case (Some product)
    show ?thesis
    proof (cases "Product_product_type product = Some DIGITAL")
      case False
      with Some Cons.prems Cons.IH [of "Suc i" d] show ?thesis by simp
    next
      case True
      show ?thesis
      proof (cases "expiry_date_of w i product")
        case (Inl a)
        with Some True Cons.prems show ?thesis by simp
      next
        case (Inr expiry_date)
        let ?d1 = "put_item
          (item\<lparr>OrderItem_download_links := Some (download_links_of e w i product expiry_date),
                 OrderItem_download_expires_at := Some expiry_date\<rparr>) d"
        from Some True Inr Cons.prems
        have "delivery_loop e w (Suc i) items ?d1 = Inr d'
              \<or> delivery_loop e w (Suc i) items ?d1 = Inl (ex, d')"
          by (simp add: Let_def)
        from Cons.IH [OF this] show ?thesis
          by (simp add: put_item_def comp_def)
      qed
    qed
  qed
qed

lemma process_digital_delivery_calls:
  "calls (process_digital_delivery e w ord s)
   = calls s @ [Call_process_digital_delivery (Order_id ord)]"
  by (simp add: process_digital_delivery_def enter_def Let_def split: sum.splits prod.splits)

lemma process_digital_delivery_frame:
  "payments (db (process_digital_delivery e w ord s)) = payments (db s)"
  "orders (db (process_digital_delivery e w ord s)) = orders (db s)"
  "users (db (process_digital_delivery e w ord s)) = users (db s)"
  "products (db (process_digital_delivery e w ord s)) = products (db s)"
  "loyalty_transactions (db (process_digital_delivery e w ord s)) = loyalty_transactions (db s)"
proof -
  let ?r = "delivery_loop e w 0 (Order_items (db s) ord) (db s)"
  have "payments (db (process_digital_delivery e w ord s)) = payments (db s)
      \<and> orders (db (process_digital_delivery e w ord s)) = orders (db s)
      \<and> users (db (process_digital_delivery e w ord s)) = users (db s)
      \<and> products (db (process_digital_delivery e w ord s)) = products (db s)
      \<and> loyalty_transactions (db (process_digital_delivery e w ord s))
          = loyalty_transactions (db s)"
  proof (cases ?r)
    case (Inl a)
    obtain ex d' where a: "a = (ex, d')" by (cases a)
    from delivery_loop_frame [of e w 0 "Order_items (db s) ord" "db s" d' ex] Inl a
    show ?thesis by (simp add: process_digital_delivery_def enter_def)
  next
    case (Inr d')
    from delivery_loop_frame [of e w 0 "Order_items (db s) ord" "db s" d'] Inr
    show ?thesis by (simp add: process_digital_delivery_def enter_def)
  qed
  then show
    "payments (db (process_digital_delivery e w ord s)) = payments (db s)"
    "orders (db (process_digital_delivery e w ord s)) = orders (db s)"
    "users (db (process_digital_delivery e w ord s)) = users (db s)"
    "products (db (process_digital_delivery e w ord s)) = products (db s)"
    "loyalty_transactions (db (process_digital_delivery e w ord s)) = loyalty_transactions (db s)"
    by simp_all
qed

lemma Order_items_cong:
  "order_items d' = order_items d \<Longrightarrow> Order_id ord' = Order_id ord \<Longrightarrow>
   Order_items d' ord' = Order_items d ord"
  by (simp add: Order_items_def)

lemma on_payment_finished_calls:
  "calls (on_payment_finished e w ord s)
   = calls s @ Call_award_loyalty_points (Order_id ord)
       # (if Order_items (db s) ord = [] then []
          else [Call_process_digital_delivery (Order_id ord)])"
proof -
  let ?ord = "ord\<lparr>Order_payment_status := Some FINISHED, Order_status := Some PAID,
                   Order_updated_at := Some (now_order w)\<rparr>"
  let ?s3 = "award_loyalty_points e ?ord (s\<lparr>db := put_order ?ord (db s)\<rparr>)"
  have "Order_items (db ?s3) ?ord = Order_items (db s) ord"
    by (rule Order_items_cong) (simp_all add: award_loyalty_points_frame put_order_def)
  then show ?thesis
    by (simp add: on_payment_finished_def Let_def process_digital_delivery_calls
        award_loyalty_points_calls)
qed

lemma on_payment_finished_frame:
  "payments (db (on_payment_finished e w ord s)) = payments (db s)"
  "orders (db (on_payment_finished e w ord s))
   = orders (put_order (ord\<lparr>Order_payment_status := Some FINISHED, Order_status := Some PAID,
                            Order_updated_at := Some (now_order w)\<rparr>) (db s))"
  by (simp_all add: on_payment_finished_def Let_def process_digital_delivery_frame
      award_loyalty_points_frame put_order_def)

lemma update_payment_details_keys:
  assumes "update_payment_details e w d new_status payment = Inr payment'"
  shows "Payment_id payment' = Payment_id payment"
    and "Payment_order_id payment' = Payment_order_id payment"
    and "Payment_payment_id payment' = Payment_payment_id payment"
    and "Payment_payment_status payment' = Some new_status"
  using assms by (auto simp: update_payment_details_def split: sum.splits)

lemma Payment_order_put_payment:
  "Payment_order_id p' = Payment_order_id p \<Longrightarrow>
   Payment_order (put_payment q d) p' = Payment_order d p"
  by (cases "Payment_order_id p") (simp_all add: Payment_order_def put_payment_def)

subsection \<open>The shapes of a call of \<open>process_ipn_callback\<close>\<close>

lemma list_all2_flush_user_same: "list_all2 (flush_user e) us us"
  by (simp add: list_all2_same flush_user_def flush_int_def)

lemma flush_payment_keys:
  assumes "flush_payment e payment payment' = Inr stored"
  shows "Payment_id stored = Payment_id payment'"
    and "Payment_order_id stored = Payment_order_id payment'"
    and "Payment_payment_id stored = Payment_payment_id payment'"
    and "Payment_payment_status stored = Payment_payment_status payment'"
    and "Payment_actually_paid stored = Payment_actually_paid payment'"
    and "Payment_updated_at stored = Payment_updated_at payment'"
  using assms by (auto simp: flush_payment_def split: sum.splits)

lemma put_payment_twice:
  "Payment_id q = Payment_id p \<Longrightarrow> put_payment q (put_payment p d) = put_payment q d"
  by (simp add: put_payment_def comp_def)

lemma commit_TrueD:
  assumes "commit e s payment payment' reached = (True, s')"
  shows "\<exists>stored. flush_payment e payment payment' = Inr stored
           \<and> list_all2 (flush_user e) (users (db s)) (users (db reached))
           \<and> s' = \<lparr>db = put_payment stored (db reached), calls = calls reached\<rparr>"
  using assms
  by (cases "flush_payment e payment payment'")
     (auto simp: commit_def Let_def state_update_eq split: if_splits)

lemma commit_True:
  assumes "flush_payment e payment payment' = Inr stored"
    and "list_all2 (flush_user e) (users (db s)) (users (db reached))"
  shows "commit e s payment payment' reached
         = (True, \<lparr>db = put_payment stored (db reached), calls = calls reached\<rparr>)"
  using assms by (simp add: commit_def Let_def state_update_eq)

lemma commit_False:
  assumes "fst (commit e s payment payment' reached) = False"
  shows "snd (commit e s payment payment' reached)
         = \<lparr>db = (db s)\<lparr>loyalty_transactions := loyalty_transactions (db reached)\<rparr>,
            calls = calls reached\<rparr>"
  using assms
  by (cases "flush_payment e payment payment'")
     (auto simp: commit_def Let_def split: if_splits)

lemma process_ipn_callback_no_trigger:
  assumes "truthy (dict_get d ''payment_id'')" and "truthy (dict_get d ''payment_status'')"
    and "query_payment e (dict_get d ''payment_id'') (db s) = Inr (Some payment)"
    and "map_payment_status (dict_get d ''payment_status'') = Inr new_status"
    and "update_payment_details e w d new_status payment = Inr payment'"
    and "\<not> (new_status = FINISHED \<and> Payment_payment_status payment \<noteq> Some FINISHED)"
  shows "process_ipn_callback e w (PDict d) s =
           commit e \<lparr>db = db s, calls = calls s @ [Call_process_ipn_callback]\<rparr>
             payment payment'
             \<lparr>db = put_payment payment' (db s),
              calls = calls s @ [Call_process_ipn_callback]\<rparr>"
  using assms by (auto simp: process_ipn_callback_def Let_def enter_def state_update_eq)

lemma process_ipn_callback_trigger:
  assumes "truthy (dict_get d ''payment_id'')" and "truthy (dict_get d ''payment_status'')"
    and "query_payment e (dict_get d ''payment_id'') (db s) = Inr (Some payment)"
    and "map_payment_status (dict_get d ''payment_status'') = Inr FINISHED"
    and "update_payment_details e w d FINISHED payment = Inr payment'"
    and "Payment_payment_status payment \<noteq> Some FINISHED"
    and "Payment_order (db s) payment = Some ord"
  shows "process_ipn_callback e w (PDict d) s =
           commit e \<lparr>db = db s, calls = calls s @ [Call_process_ipn_callback]\<rparr>
             payment payment'
             (on_payment_finished e w ord
                \<lparr>db = put_payment payment' (db s),
                 calls = calls s @ [Call_process_ipn_callback]\<rparr>)"
proof -
  have "Payment_order (put_payment payment' (db s)) payment' = Some ord"
    using assms(5,7) by (simp add: Payment_order_put_payment update_payment_details_keys)
  then show ?thesis
    using assms by (simp add: process_ipn_callback_def Let_def enter_def state_update_eq)
qed

lemma process_ipn_callback_TrueD:
  assumes "process_ipn_callback e w ipn_data s = (True, s')"
  shows "\<exists>d payment new_status payment'.
           ipn_data = PDict d \<and>
           truthy (dict_get d ''payment_id'') \<and> truthy (dict_get d ''payment_status'') \<and>
           query_payment e (dict_get d ''payment_id'') (db s) = Inr (Some payment) \<and>
           map_payment_status (dict_get d ''payment_status'') = Inr new_status \<and>
           update_payment_details e w d new_status payment = Inr payment' \<and>
           (new_status = FINISHED \<and> Payment_payment_status payment \<noteq> Some FINISHED
              \<longrightarrow> Payment_order (db s) payment \<noteq> None)"
proof -
  note defs = process_ipn_callback_def Let_def enter_def
  from assms obtain d where d: "ipn_data = PDict d"
    by (cases ipn_data) (simp_all add: defs)
  from assms d
  have t: "truthy (dict_get d ''payment_id'')" "truthy (dict_get d ''payment_status'')"
    by (auto simp: defs split: if_splits)
  from assms d t obtain payment where
    q: "query_payment e (dict_get d ''payment_id'') (db s) = Inr (Some payment)"
    by (cases "query_payment e (dict_get d ''payment_id'') (db s)")
       (auto simp: defs split: option.splits)
  from assms d t q obtain new_status where
    m: "map_payment_status (dict_get d ''payment_status'') = Inr new_status"
    by (cases "map_payment_status (dict_get d ''payment_status'')") (auto simp: defs)
  from assms d t q m obtain payment' where
    u: "update_payment_details e w d new_status payment = Inr payment'"
    by (cases "update_payment_details e w d new_status payment") (auto simp: defs)
  have "Payment_order (db s) payment \<noteq> None"
    if "new_status = FINISHED \<and> Payment_payment_status payment \<noteq> Some FINISHED"
  proof -
    have "Payment_order (put_payment payment' (db s)) payment' = Payment_order (db s) payment"
      using u by (simp add: Payment_order_put_payment update_payment_details_keys)
    with assms d t q m u that show ?thesis
      by (cases "Payment_order (db s) payment") (auto simp: defs)
  qed
  with d t q m u show ?thesis by blast
qed

text \<open>An applied notification: the payment object, the row the store keeps of it, and the
  state \<open>reached\<close> that the commit found.\<close>

lemma process_ipn_callback_applied:
  assumes "process_ipn_callback e w (PDict d) s = (True, s')"
    and "query_payment e (dict_get d ''payment_id'') (db s) = Inr (Some payment)"
    and "map_payment_status (dict_get d ''payment_status'') = Inr new_status"
  obtains payment' stored reached where
    "truthy (dict_get d ''payment_id'')" and "truthy (dict_get d ''payment_status'')"
    and "update_payment_details e w d new_status payment = Inr payment'"
    and "flush_payment e payment payment' = Inr stored"
    and "if new_status = FINISHED \<and> Payment_payment_status payment \<noteq> Some FINISHED
         then \<exists>ord. Payment_order (db s) payment = Some ord
                \<and> reached = on_payment_finished e w ord
                           \<lparr>db = put_payment payment' (db s),
                            calls = calls s @ [Call_process_ipn_callback]\<rparr>
         else reached = \<lparr>db = put_payment payment' (db s),
                       calls = calls s @ [Call_process_ipn_callback]\<rparr>"
    and "s' = \<lparr>db = put_payment stored (db reached), calls = calls reached\<rparr>"
proof -
  from process_ipn_callback_TrueD [OF assms(1)] assms(2,3)
  obtain payment' where
    t: "truthy (dict_get d ''payment_id'')" "truthy (dict_get d ''payment_status'')"
    and u: "update_payment_details e w d new_status payment = Inr payment'"
    and o: "new_status = FINISHED \<and> Payment_payment_status payment \<noteq> Some FINISHED
            \<longrightarrow> Payment_order (db s) payment \<noteq> None"
    by auto
  let ?s0 = "\<lparr>db = db s, calls = calls s @ [Call_process_ipn_callback]\<rparr>"
  let ?s1 = "\<lparr>db = put_payment payment' (db s), calls = calls s @ [Call_process_ipn_callback]\<rparr>"
  show ?thesis
  proof (cases "new_status = FINISHED \<and> Payment_payment_status payment \<noteq> Some FINISHED")
    case False
    from process_ipn_callback_no_trigger [OF t assms(2,3) u False] assms(1)
    have "commit e ?s0 payment payment' ?s1 = (True, s')" by simp
    from commit_TrueD [OF this] obtain stored where
      "flush_payment e payment payment' = Inr stored"
      and "s' = \<lparr>db = put_payment stored (db ?s1), calls = calls ?s1\<rparr>"
      by blast
    with that [of payment' stored ?s1] t u False show ?thesis by simp
  next
    case True
    with o obtain ord where ord: "Payment_order (db s) payment = Some ord" by auto
    let ?reached = "on_payment_finished e w ord ?s1"
    from True process_ipn_callback_trigger [OF t assms(2) _ _ _ ord, of w payment'] assms(1,3) u
    have "commit e ?s0 payment payment' ?reached = (True, s')" by simp
    from commit_TrueD [OF this] obtain stored where
      "flush_payment e payment payment' = Inr stored"
      and "s' = \<lparr>db = put_payment stored (db ?reached), calls = calls ?reached\<rparr>"
      by blast
    with that [of payment' stored ?reached] t u True ord show ?thesis by simp
  qed
qed

lemma Payment_orderD:
  "Payment_order d p = Some ord \<Longrightarrow>
   find (\<lambda>r. Order_id r = Order_id ord) (orders d) = Some ord"
  by (cases "Payment_order_id p") (auto simp: Payment_order_def dest: find_Some_key)

subsection \<open>When fulfillment is triggered\<close>

text \<open>C1, amended. For every notification that \<open>process_ipn_callback\<close> applies (it
  returns \<open>True\<close>) to the payment its query finds: when the mapped new status is FINISHED
  and the stored status was not FINISHED, the payment's order gets status PAID and payment
  status FINISHED, the loyalty handler is entered once, and the delivery handler is entered
  once if the order has a line item and not at all if it has none; for every other pair of
  old and new status the orders, users, line items and loyalty transactions stay as they
  are and no handler is entered.\<close>

theorem fulfillment_trigger:
  assumes "process_ipn_callback e w (PDict d) s = (True, s')"
    and "query_payment e (dict_get d ''payment_id'') (db s) = Inr (Some payment)"
    and "map_payment_status (dict_get d ''payment_status'') = Inr new_status"
  shows "if new_status = FINISHED \<and> Payment_payment_status payment \<noteq> Some FINISHED
         then \<exists>ord ord'.
                Payment_order (db s) payment = Some ord \<and>
                find (\<lambda>r. Order_id r = Order_id ord) (orders (db s')) = Some ord' \<and>
                Order_status ord' = Some PAID \<and>
                Order_payment_status ord' = Some FINISHED \<and>
                calls s' =
                  calls s @ [Call_process_ipn_callback, Call_award_loyalty_points (Order_id ord)]
                  @ (if Order_items (db s) ord = [] then []
                     else [Call_process_digital_delivery (Order_id ord)])
         else orders (db s') = orders (db s) \<and>
              users (db s') = users (db s) \<and>
              order_items (db s') = order_items (db s) \<and>
              loyalty_transactions (db s') = loyalty_transactions (db s) \<and>
              calls s' = calls s @ [Call_process_ipn_callback]"
proof -
  from assms obtain payment' stored reached where
    reached: "if new_status = FINISHED \<and> Payment_payment_status payment \<noteq> Some FINISHED
         then \<exists>ord. Payment_order (db s) payment = Some ord
                \<and> reached = on_payment_finished e w ord
                           \<lparr>db = put_payment payment' (db s),
                            calls = calls s @ [Call_process_ipn_callback]\<rparr>
         else reached = \<lparr>db = put_payment payment' (db s),
                       calls = calls s @ [Call_process_ipn_callback]\<rparr>"
    and s': "s' = \<lparr>db = put_payment stored (db reached), calls = calls reached\<rparr>"
    by (rule process_ipn_callback_applied)
  let ?s1 = "\<lparr>db = put_payment payment' (db s), calls = calls s @ [Call_process_ipn_callback]\<rparr>"
  show ?thesis
  proof (cases "new_status = FINISHED \<and> Payment_payment_status payment \<noteq> Some FINISHED")
    case False
    with reached have "reached = ?s1" by simp
    with False s' show ?thesis by (simp add: put_payment_def)
  next
    case True
    with reached obtain ord where ord: "Payment_order (db s) payment = Some ord"
      and b: "reached = on_payment_finished e w ord ?s1"
      by auto
    let ?ord = "ord\<lparr>Order_payment_status := Some FINISHED, Order_status := Some PAID,
                     Order_updated_at := Some (now_order w)\<rparr>"
    have items: "Order_items (db ?s1) ord = Order_items (db s) ord"
      by (rule Order_items_cong) (simp_all add: put_payment_def)
    have "orders (db s') = map (\<lambda>r. if Order_id r = Order_id ord then ?ord else r) (orders (db s))"
      by (simp add: s' b on_payment_finished_frame put_order_def put_payment_def)
    then have "find (\<lambda>r. Order_id r = Order_id ord) (orders (db s')) = Some ?ord"
      using find_map_replace [OF Payment_orderD [OF ord], of ?ord] by simp
    moreover have "calls s' =
        calls s @ [Call_process_ipn_callback, Call_award_loyalty_points (Order_id ord)]
        @ (if Order_items (db s) ord = [] then []
           else [Call_process_digital_delivery (Order_id ord)])"
      using items by (simp add: s' b on_payment_finished_calls)
    ultimately show ?thesis using True ord by simp
  qed
qed

text \<open>The theorem at the shop, for the notification \<open>finished\<close> of payment \<open>np_123\<close>.\<close>

theorem fulfillment_trigger_witness:
  "process_ipn_callback shop_env shop_world (PDict (notification ''np_123'' ''finished'')) shop
     = (True, snd (process_ipn_callback shop_env shop_world
                     (PDict (notification ''np_123'' ''finished'')) shop))
   \<and> query_payment shop_env (dict_get (notification ''np_123'' ''finished'') ''payment_id'')
        (db shop) = Inr (Some shop_payment)
   \<and> map_payment_status (dict_get (notification ''np_123'' ''finished'') ''payment_status'')
        = Inr FINISHED
   \<and> (if FINISHED = FINISHED \<and> Payment_payment_status shop_payment \<noteq> Some FINISHED
       then \<exists>ord ord'.
              Payment_order (db shop) shop_payment = Some ord \<and>
              find (\<lambda>r. Order_id r = Order_id ord)
                (orders (db (snd (process_ipn_callback shop_env shop_world
                     (PDict (notification ''np_123'' ''finished'')) shop)))) = Some ord' \<and>
              Order_status ord' = Some PAID \<and>
              Order_payment_status ord' = Some FINISHED \<and>
              calls (snd (process_ipn_callback shop_env shop_world
                     (PDict (notification ''np_123'' ''finished'')) shop)) =
                calls shop @ [Call_process_ipn_callback, Call_award_loyalty_points (Order_id ord)]
                @ (if Order_items (db shop) ord = [] then []
                   else [Call_process_digital_delivery (Order_id ord)])
       else orders (db (snd (process_ipn_callback shop_env shop_world
                     (PDict (notification ''np_123'' ''finished'')) shop))) = orders (db shop) \<and>
            users (db (snd (process_ipn_callback shop_env shop_world
                     (PDict (notification ''np_123'' ''finished'')) shop))) = users (db shop) \<and>
            order_items (db (snd (process_ipn_callback shop_env shop_world
                     (PDict (notification ''np_123'' ''finished'')) shop)))
              = order_items (db shop) \<and>
            loyalty_transactions (db (snd (process_ipn_callback shop_env shop_world
                     (PDict (notification ''np_123'' ''finished'')) shop)))
              = loyalty_transactions (db shop) \<and>
            calls (snd (process_ipn_callback shop_env shop_world
                     (PDict (notification ''np_123'' ''finished'')) shop))
              = calls shop @ [Call_process_ipn_callback])"
proof -
  have "fst (process_ipn_callback shop_env shop_world
               (PDict (notification ''np_123'' ''finished'')) shop)"
    by code_simp
  then have a: "process_ipn_callback shop_env shop_world
        (PDict (notification ''np_123'' ''finished'')) shop
     = (True, snd (process_ipn_callback shop_env shop_world
                     (PDict (notification ''np_123'' ''finished'')) shop))"
    by (simp add: prod_eq_iff)
  have b: "query_payment shop_env (dict_get (notification ''np_123'' ''finished'') ''payment_id'')
        (db shop) = Inr (Some shop_payment)"
    by code_simp
  have c: "map_payment_status (dict_get (notification ''np_123'' ''finished'') ''payment_status'')
        = Inr FINISHED"
    by code_simp
  show ?thesis
    by (intro conjI a b c fulfillment_trigger [OF a b c])
qed

text \<open>C1 as stated fails for an order without line items: the notification is applied,
  the stored status WAITING is not FINISHED and the new one is, and yet the delivery
  handler is not entered.\<close>

theorem fulfillment_counterexample:
  "fst (process_ipn_callback shop_env shop_world
          (PDict (notification ''np_123'' ''finished'')) empty_order_shop)
   \<and> query_payment shop_env (PStr ''np_123'') (db empty_order_shop) = Inr (Some shop_payment)
   \<and> Payment_payment_status shop_payment = Some WAITING
   \<and> map_payment_status (PStr ''finished'') = Inr FINISHED
   \<and> calls (snd (process_ipn_callback shop_env shop_world
          (PDict (notification ''np_123'' ''finished'')) empty_order_shop))
       = [Call_process_ipn_callback, Call_award_loyalty_points 1]"
  by (intro conjI; code_simp)

subsection \<open>More lookups\<close>

lemma find_replace_matching:
  assumes "find P xs = Some p" and "P p'"
  shows "find P (map (\<lambda>r. if key r = key p then p' else r) xs) = Some p'"
  using assms by (induction xs) (auto split: if_splits)

lemma find_Some_find_key:
  "find P xs = Some x \<Longrightarrow> \<exists>y. find (\<lambda>r. key r = key x) xs = Some y"
  by (induction xs) (auto split: if_splits)

lemma find_distinct_key:
  "distinct (map key xs) \<Longrightarrow> x \<in> set xs \<Longrightarrow> find (\<lambda>r. key r = key x) xs = Some x"
  by (induction xs) (auto simp: image_iff)

lemma query_payment_cong:
  "payments d' = payments d \<Longrightarrow> query_payment e v d' = query_payment e v d"
  by (cases v; cases "bind_non_str e v"; simp add: query_payment_def)

lemma query_payment_put_payment:
  assumes "query_payment e v d = Inr (Some p)"
    and "Payment_id p' = Payment_id p" and "Payment_payment_id p' = Payment_payment_id p"
  shows "query_payment e v (put_payment p' d) = Inr (Some p')"
proof (cases "\<exists>s. v = PStr s")
  case True
  then obtain s where v: "v = PStr s" by blast
  with assms(1) have f: "find (\<lambda>r. Payment_payment_id r = Some s) (payments d) = Some p"
    by (simp add: query_payment_def)
  then have "Payment_payment_id p = Some s"
    by (rule find_Some_key)
  with assms(3) have "Payment_payment_id p' = Some s" by simp
  from find_replace_matching [of "\<lambda>r. Payment_payment_id r = Some s", OF f this, of Payment_id]
  show ?thesis using v assms(2) by (simp add: query_payment_def put_payment_def)
next
  case False
  with assms(1) obtain f where b: "bind_non_str e v = Some f"
    and f: "find (\<lambda>r. f (Payment_payment_id r)) (payments d) = Some p"
    by (cases v; cases "bind_non_str e v") (auto simp: query_payment_def)
  from f have "f (Payment_payment_id p)"
    by (auto simp: find_Some_iff)
  with assms(3) have "f (Payment_payment_id p')" by simp
  from find_replace_matching [of "\<lambda>r. f (Payment_payment_id r)", OF f this, of Payment_id]
  show ?thesis using False b assms(2)
    by (cases v) (simp_all add: query_payment_def put_payment_def)
qed

lemma process_ipn_callback_payments:
  assumes "process_ipn_callback e w (PDict d) s = (True, s')"
    and "query_payment e (dict_get d ''payment_id'') (db s) = Inr (Some payment)"
    and "map_payment_status (dict_get d ''payment_status'') = Inr new_status"
  obtains payment' stored where
    "update_payment_details e w d new_status payment = Inr payment'"
    and "flush_payment e payment payment' = Inr stored"
    and "payments (db s') = payments (put_payment stored (db s))"
proof -
  from assms obtain payment' stored reached where
    u: "update_payment_details e w d new_status payment = Inr payment'"
    and f: "flush_payment e payment payment' = Inr stored"
    and reached: "if new_status = FINISHED \<and> Payment_payment_status payment \<noteq> Some FINISHED
         then \<exists>ord. Payment_order (db s) payment = Some ord
                \<and> reached = on_payment_finished e w ord
                           \<lparr>db = put_payment payment' (db s),
                            calls = calls s @ [Call_process_ipn_callback]\<rparr>
         else reached = \<lparr>db = put_payment payment' (db s),
                       calls = calls s @ [Call_process_ipn_callback]\<rparr>"
    and s': "s' = \<lparr>db = put_payment stored (db reached), calls = calls reached\<rparr>"
    by (rule process_ipn_callback_applied)
  from reached have "payments (db reached) = payments (put_payment payment' (db s))"
    by (auto simp: on_payment_finished_frame split: if_splits)
  then have "payments (db s') = payments (put_payment stored (put_payment payment' (db s)))"
    by (simp add: s' put_payment_def)
  then have "payments (db s') = payments (put_payment stored (db s))"
    by (simp add: put_payment_twice flush_payment_keys [OF f])
  with u f that show ?thesis by blast
qed

lemma update_payment_details_again:
  assumes "update_payment_details e w1 d new_status payment = Inr payment'"
    and "flush_payment e payment payment' = Inr stored"
  shows "update_payment_details e w2 d new_status stored
         = Inr (payment'\<lparr>Payment_updated_at := Some (now_payment w2)\<rparr>)"
  using assms
  by (auto simp: update_payment_details_def flush_payment_def split: sum.splits)

lemma flush_string_again:
  "flush_string e loaded v = Inr kept \<Longrightarrow> flush_string e kept v = Inr kept"
  by (auto simp: flush_string_def split: if_splits)

lemma flush_payment_again:
  assumes "flush_payment e payment payment' = Inr stored"
  shows "flush_payment e stored (payment'\<lparr>Payment_updated_at := t\<rparr>)
         = Inr (stored\<lparr>Payment_updated_at := t\<rparr>)"
proof -
  from assms obtain c x n where
    c: "flush_string e (Payment_actually_paid_currency payment)
          (Payment_actually_paid_currency payment') = Inr c"
    and x: "flush_string e (Payment_txn_id payment) (Payment_txn_id payment') = Inr x"
    and n: "flush_string e (Payment_network payment) (Payment_network payment') = Inr n"
    and st: "stored = payment'\<lparr>Payment_actually_paid_currency := c, Payment_txn_id := x,
                               Payment_network := n\<rparr>"
    by (auto simp: flush_payment_def split: sum.splits)
  from c x n st show ?thesis
    by (simp add: flush_payment_def flush_string_again)
qed

lemma Order_userD:
  "Order_user d ord = Some u \<Longrightarrow>
   Order_user_id ord = Some (User_id u) \<and> find (\<lambda>r. User_id r = User_id u) (users d) = Some u"
  by (cases "Order_user_id ord") (auto simp: Order_user_def dest: find_Some_key)

lemma py_int_floor:
  "(py_int x \<le> 0) = (\<lfloor>x\<rfloor> \<le> 0)" "0 < \<lfloor>x\<rfloor> \<Longrightarrow> py_int x = \<lfloor>x\<rfloor>"
proof -
  show "(py_int x \<le> 0) = (\<lfloor>x\<rfloor> \<le> 0)"
  proof (cases "x < 0")
    case True
    then have "\<lceil>x\<rceil> \<le> 0" by (simp add: ceiling_le_zero)
    moreover from True have "\<lfloor>x\<rfloor> \<le> 0" by (simp add: floor_le_zero less_imp_le)
    ultimately show ?thesis using True by (simp add: py_int_def)
  next
    case False
    then show ?thesis by (simp add: py_int_def)
  qed
  show "py_int x = \<lfloor>x\<rfloor>" if "0 < \<lfloor>x\<rfloor>"
  proof -
    from that have "0 \<le> x" by (simp add: zero_less_floor)
    then show ?thesis by (simp add: py_int_def)
  qed
qed


lemma verify_ipn_signature_False:
  "signature \<noteq> hmac_sha512_hexdigest e (ipn_secret e) payload \<Longrightarrow>
   \<not> verify_ipn_signature e payload signature"
  by (auto simp: verify_ipn_signature_def compare_digest_def Let_def)

subsection \<open>Replaying a notification\<close>

text \<open>C2, amended. When a notification has been applied to the payment its query finds (the
  call returned \<open>True\<close>), applying the same notification again returns \<open>True\<close>, enters
  no fulfillment handler, and changes nothing in the rows but \<open>updated_at\<close> of that
  payment, which takes the second call's reading of the clock. Over both calls the loyalty
  handler is entered once when the mapped status is FINISHED and the status stored before
  the first call was not, and never otherwise; the delivery handler likewise, if the order
  has a line item.\<close>

theorem notification_replay:
  assumes "process_ipn_callback e w1 (PDict d) s = (True, s1)"
    and "query_payment e (dict_get d ''payment_id'') (db s) = Inr (Some payment)"
    and "map_payment_status (dict_get d ''payment_status'') = Inr new_status"
  shows "process_ipn_callback e w2 (PDict d) s1 =
           (True,
            \<lparr>db = (db s1)\<lparr>payments :=
                     map (\<lambda>r. if Payment_id r = Payment_id payment
                               then r\<lparr>Payment_updated_at := Some (now_payment w2)\<rparr> else r)
                       (payments (db s1))\<rparr>,
             calls = calls s1 @ [Call_process_ipn_callback]\<rparr>)
       \<and> length (filter is_award (calls s1)) =
           length (filter is_award (calls s))
           + (if new_status = FINISHED \<and> Payment_payment_status payment \<noteq> Some FINISHED
              then 1 else 0)
       \<and> length (filter is_delivery (calls s1)) =
           length (filter is_delivery (calls s))
           + (if new_status = FINISHED \<and> Payment_payment_status payment \<noteq> Some FINISHED
                 \<and> (case Payment_order (db s) payment of
                        None \<Rightarrow> False
                      | Some ord \<Rightarrow> Order_items (db s) ord \<noteq> [])
              then 1 else 0)"
proof -
  from assms obtain payment' stored reached where
    t: "truthy (dict_get d ''payment_id'')" "truthy (dict_get d ''payment_status'')"
    and u: "update_payment_details e w1 d new_status payment = Inr payment'"
    and f: "flush_payment e payment payment' = Inr stored"
    and reached: "if new_status = FINISHED \<and> Payment_payment_status payment \<noteq> Some FINISHED
         then \<exists>ord. Payment_order (db s) payment = Some ord
                \<and> reached = on_payment_finished e w1 ord
                           \<lparr>db = put_payment payment' (db s),
                            calls = calls s @ [Call_process_ipn_callback]\<rparr>
         else reached = \<lparr>db = put_payment payment' (db s),
                       calls = calls s @ [Call_process_ipn_callback]\<rparr>"
    and s1: "s1 = \<lparr>db = put_payment stored (db reached), calls = calls reached\<rparr>"
    by (rule process_ipn_callback_applied)
  note k = update_payment_details_keys [OF u]
  note kf = flush_payment_keys [OF f]
  from reached have "payments (db reached) = payments (put_payment payment' (db s))"
    by (auto simp: on_payment_finished_frame split: if_splits)
  then have "payments (db s1) = payments (put_payment stored (put_payment payment' (db s)))"
    by (simp add: s1 put_payment_def)
  then have p1: "payments (db s1) = payments (put_payment stored (db s))"
    by (simp add: put_payment_twice kf)
  have "query_payment e (dict_get d ''payment_id'') (put_payment stored (db s))
          = Inr (Some stored)"
    by (rule query_payment_put_payment [OF assms(2)]) (simp_all add: k kf)
  with p1 have q1: "query_payment e (dict_get d ''payment_id'') (db s1) = Inr (Some stored)"
    using query_payment_cong [of "db s1" "put_payment stored (db s)"] by simp
  let ?p2 = "payment'\<lparr>Payment_updated_at := Some (now_payment w2)\<rparr>"
  let ?stored2 = "stored\<lparr>Payment_updated_at := Some (now_payment w2)\<rparr>"
  have u2: "update_payment_details e w2 d new_status stored = Inr ?p2"
    by (rule update_payment_details_again [OF u f])
  have f2: "flush_payment e stored ?p2 = Inr ?stored2"
    by (rule flush_payment_again [OF f])
  have "\<not> (new_status = FINISHED \<and> Payment_payment_status stored \<noteq> Some FINISHED)"
    by (simp add: k kf)
  from process_ipn_callback_no_trigger [OF t q1 assms(3) u2 this]
  have "process_ipn_callback e w2 (PDict d) s1
      = commit e \<lparr>db = db s1, calls = calls s1 @ [Call_process_ipn_callback]\<rparr> stored ?p2
          \<lparr>db = put_payment ?p2 (db s1), calls = calls s1 @ [Call_process_ipn_callback]\<rparr>" .
  also have "\<dots> = (True, \<lparr>db = put_payment ?stored2 (put_payment ?p2 (db s1)),
                           calls = calls s1 @ [Call_process_ipn_callback]\<rparr>)"
    using commit_True [OF f2,
        of "\<lparr>db = db s1, calls = calls s1 @ [Call_process_ipn_callback]\<rparr>"
           "\<lparr>db = put_payment ?p2 (db s1), calls = calls s1 @ [Call_process_ipn_callback]\<rparr>"]
    by (simp add: put_payment_def list_all2_flush_user_same)
  also have "put_payment ?stored2 (put_payment ?p2 (db s1)) = put_payment ?stored2 (db s1)"
    by (simp add: put_payment_twice kf)
  finally have second: "process_ipn_callback e w2 (PDict d) s1
      = (True, \<lparr>db = put_payment ?stored2 (db s1),
                 calls = calls s1 @ [Call_process_ipn_callback]\<rparr>)" .
  have "map (\<lambda>r. if Payment_id r = Payment_id ?stored2 then ?stored2 else r) (payments (db s1))
        = map (\<lambda>r. if Payment_id r = Payment_id payment
                    then r\<lparr>Payment_updated_at := Some (now_payment w2)\<rparr> else r)
            (payments (db s1))"
    by (simp add: p1 put_payment_def k kf comp_def)
  then have "put_payment ?stored2 (db s1)
      = (db s1)\<lparr>payments :=
           map (\<lambda>r. if Payment_id r = Payment_id payment
                     then r\<lparr>Payment_updated_at := Some (now_payment w2)\<rparr> else r)
             (payments (db s1))\<rparr>"
    by (simp add: put_payment_def)
  with second have A: "process_ipn_callback e w2 (PDict d) s1 =
           (True,
            \<lparr>db = (db s1)\<lparr>payments :=
                     map (\<lambda>r. if Payment_id r = Payment_id payment
                               then r\<lparr>Payment_updated_at := Some (now_payment w2)\<rparr> else r)
                       (payments (db s1))\<rparr>,
             calls = calls s1 @ [Call_process_ipn_callback]\<rparr>)"
    by simp
  let ?s0 = "\<lparr>db = put_payment payment' (db s), calls = calls s @ [Call_process_ipn_callback]\<rparr>"
  have B: "length (filter is_award (calls s1)) =
           length (filter is_award (calls s))
           + (if new_status = FINISHED \<and> Payment_payment_status payment \<noteq> Some FINISHED
              then 1 else 0)
       \<and> length (filter is_delivery (calls s1)) =
           length (filter is_delivery (calls s))
           + (if new_status = FINISHED \<and> Payment_payment_status payment \<noteq> Some FINISHED
                 \<and> (case Payment_order (db s) payment of
                        None \<Rightarrow> False
                      | Some ord \<Rightarrow> Order_items (db s) ord \<noteq> [])
              then 1 else 0)"
  proof (cases "new_status = FINISHED \<and> Payment_payment_status payment \<noteq> Some FINISHED")
    case False
    with reached have "reached = ?s0" by simp
    with False s1 show ?thesis by simp
  next
    case True
    with reached obtain ord where ord: "Payment_order (db s) payment = Some ord"
      and b: "reached = on_payment_finished e w1 ord ?s0"
      by auto
    have "Order_items (db ?s0) ord = Order_items (db s) ord"
      by (rule Order_items_cong) (simp_all add: put_payment_def)
    with b s1 show ?thesis using True ord by (simp add: on_payment_finished_calls)
  qed
  from A B show ?thesis by blast
qed

text \<open>The theorem at the shop: \<open>finished\<close> for \<open>np_123\<close>, applied and then replayed at a
  later time.\<close>

theorem notification_replay_witness:
  "process_ipn_callback shop_env shop_world (PDict (notification ''np_123'' ''finished'')) shop
     = (True, settled_shop)
   \<and> query_payment shop_env (dict_get (notification ''np_123'' ''finished'') ''payment_id'')
        (db shop) = Inr (Some shop_payment)
   \<and> map_payment_status (dict_get (notification ''np_123'' ''finished'') ''payment_status'')
        = Inr FINISHED
   \<and> process_ipn_callback shop_env later_world (PDict (notification ''np_123'' ''finished''))
        settled_shop =
           (True,
            \<lparr>db = (db settled_shop)\<lparr>payments :=
                     map (\<lambda>r. if Payment_id r = Payment_id shop_payment
                               then r\<lparr>Payment_updated_at := Some (now_payment later_world)\<rparr>
                               else r)
                       (payments (db settled_shop))\<rparr>,
             calls = calls settled_shop @ [Call_process_ipn_callback]\<rparr>)
   \<and> length (filter is_award (calls settled_shop)) = 1
   \<and> length (filter is_delivery (calls settled_shop)) = 1"
proof -
  have "fst (process_ipn_callback shop_env shop_world
               (PDict (notification ''np_123'' ''finished'')) shop)"
    by code_simp
  then have a: "process_ipn_callback shop_env shop_world
        (PDict (notification ''np_123'' ''finished'')) shop = (True, settled_shop)"
    by (simp add: prod_eq_iff settled_shop_def)
  have b: "query_payment shop_env (dict_get (notification ''np_123'' ''finished'') ''payment_id'')
        (db shop) = Inr (Some shop_payment)"
    by code_simp
  have c: "map_payment_status (dict_get (notification ''np_123'' ''finished'') ''payment_status'')
        = Inr FINISHED"
    by code_simp
  have d: "Payment_payment_status shop_payment \<noteq> Some FINISHED"
    by code_simp
  have f: "length (filter is_award (calls shop)) = 0" "length (filter is_delivery (calls shop)) = 0"
    by code_simp+
  have g: "Payment_order (db shop) shop_payment = Some shop_order"
    "Order_items (db shop) shop_order \<noteq> []"
    by code_simp+
  from notification_replay [OF a b c, of later_world] a b c d f g show ?thesis by simp
qed

text \<open>C2 as stated fails for the notification \<open>waiting\<close>: both calls return \<open>True\<close>, yet
  no fulfillment handler is entered in either (not exactly once) and no loyalty
  transaction exists; and the rows after the second call differ from those after the
  first, in \<open>updated_at\<close>.\<close>

theorem notification_replay_counterexample:
  "fst (process_ipn_callback shop_env shop_world (PDict (notification ''np_123'' ''waiting'')) shop)
   \<and> fst (process_ipn_callback shop_env later_world (PDict (notification ''np_123'' ''waiting''))
           (snd (process_ipn_callback shop_env shop_world
                   (PDict (notification ''np_123'' ''waiting'')) shop)))
   \<and> calls (snd (process_ipn_callback shop_env later_world
                   (PDict (notification ''np_123'' ''waiting''))
                   (snd (process_ipn_callback shop_env shop_world
                           (PDict (notification ''np_123'' ''waiting'')) shop))))
       = [Call_process_ipn_callback, Call_process_ipn_callback]
   \<and> loyalty_transactions (db (snd (process_ipn_callback shop_env later_world
                   (PDict (notification ''np_123'' ''waiting''))
                   (snd (process_ipn_callback shop_env shop_world
                           (PDict (notification ''np_123'' ''waiting'')) shop))))) = []
   \<and> db (snd (process_ipn_callback shop_env later_world
                   (PDict (notification ''np_123'' ''waiting''))
                   (snd (process_ipn_callback shop_env shop_world
                           (PDict (notification ''np_123'' ''waiting'')) shop))))
       \<noteq> db (snd (process_ipn_callback shop_env shop_world
                           (PDict (notification ''np_123'' ''waiting'')) shop))"
  by (intro conjI; code_simp)

subsection \<open>Terminal statuses\<close>

text \<open>C3, amended. A notification that is applied overwrites the stored status of its payment
  with its mapped status, whatever the stored status was, terminal or not. When the stored
  status was FINISHED, the call enters no fulfillment handler and leaves orders, users,
  line items and loyalty transactions as they are.\<close>

theorem stored_status_overwritten:
  assumes "process_ipn_callback e w (PDict d) s = (True, s')"
    and "query_payment e (dict_get d ''payment_id'') (db s) = Inr (Some payment)"
    and "map_payment_status (dict_get d ''payment_status'') = Inr new_status"
  shows "(\<exists>payment'. query_payment e (dict_get d ''payment_id'') (db s') = Inr (Some payment')
            \<and> Payment_id payment' = Payment_id payment
            \<and> Payment_payment_status payment' = Some new_status)
       \<and> (Payment_payment_status payment = Some FINISHED \<longrightarrow>
            calls s' = calls s @ [Call_process_ipn_callback]
          \<and> orders (db s') = orders (db s) \<and> users (db s') = users (db s)
          \<and> order_items (db s') = order_items (db s)
          \<and> loyalty_transactions (db s') = loyalty_transactions (db s))"
proof -
  from assms obtain payment' stored reached where
    u: "update_payment_details e w d new_status payment = Inr payment'"
    and f: "flush_payment e payment payment' = Inr stored"
    and reached: "if new_status = FINISHED \<and> Payment_payment_status payment \<noteq> Some FINISHED
         then \<exists>ord. Payment_order (db s) payment = Some ord
                \<and> reached = on_payment_finished e w ord
                           \<lparr>db = put_payment payment' (db s),
                            calls = calls s @ [Call_process_ipn_callback]\<rparr>
         else reached = \<lparr>db = put_payment payment' (db s),
                       calls = calls s @ [Call_process_ipn_callback]\<rparr>"
    and s': "s' = \<lparr>db = put_payment stored (db reached), calls = calls reached\<rparr>"
    by (rule process_ipn_callback_applied)
  note k = update_payment_details_keys [OF u]
  note kf = flush_payment_keys [OF f]
  from reached have "payments (db reached) = payments (put_payment payment' (db s))"
    by (auto simp: on_payment_finished_frame split: if_splits)
  then have "payments (db s') = payments (put_payment stored (put_payment payment' (db s)))"
    by (simp add: s' put_payment_def)
  then have p: "payments (db s') = payments (put_payment stored (db s))"
    by (simp add: put_payment_twice kf)
  have "query_payment e (dict_get d ''payment_id'') (put_payment stored (db s))
          = Inr (Some stored)"
    by (rule query_payment_put_payment [OF assms(2)]) (simp_all add: k kf)
  with p have "query_payment e (dict_get d ''payment_id'') (db s') = Inr (Some stored)"
    using query_payment_cong [of "db s'" "put_payment stored (db s)"] by simp
  with k kf have first: "\<exists>payment'. query_payment e (dict_get d ''payment_id'') (db s')
              = Inr (Some payment')
            \<and> Payment_id payment' = Payment_id payment
            \<and> Payment_payment_status payment' = Some new_status"
    by auto
  show ?thesis
  proof (cases "Payment_payment_status payment = Some FINISHED")
    case False
    with first show ?thesis by simp
  next
    case True
    with reached have "reached = \<lparr>db = put_payment payment' (db s),
                calls = calls s @ [Call_process_ipn_callback]\<rparr>"
      by simp
    with first True s' show ?thesis by (simp add: put_payment_def)
  qed
qed

text \<open>The theorem at the settled shop, for a stale \<open>confirming\<close>.\<close>

theorem stored_status_overwritten_witness:
  "process_ipn_callback shop_env shop_world (PDict (notification ''np_123'' ''confirming''))
       settled_shop
     = (True, snd (process_ipn_callback shop_env shop_world
                     (PDict (notification ''np_123'' ''confirming'')) settled_shop))
   \<and> query_payment shop_env (dict_get (notification ''np_123'' ''confirming'') ''payment_id'')
        (db settled_shop) = Inr (Some settled_payment)
   \<and> map_payment_status (dict_get (notification ''np_123'' ''confirming'') ''payment_status'')
        = Inr CONFIRMING
   \<and> Payment_payment_status settled_payment = Some FINISHED
   \<and> (\<exists>payment'.
         query_payment shop_env (dict_get (notification ''np_123'' ''confirming'') ''payment_id'')
           (db (snd (process_ipn_callback shop_env shop_world
                     (PDict (notification ''np_123'' ''confirming'')) settled_shop)))
           = Inr (Some payment')
         \<and> Payment_id payment' = Payment_id settled_payment
         \<and> Payment_payment_status payment' = Some CONFIRMING)
   \<and> calls (snd (process_ipn_callback shop_env shop_world
                     (PDict (notification ''np_123'' ''confirming'')) settled_shop))
       = calls settled_shop @ [Call_process_ipn_callback]
   \<and> orders (db (snd (process_ipn_callback shop_env shop_world
                     (PDict (notification ''np_123'' ''confirming'')) settled_shop)))
       = orders (db settled_shop)"
proof -
  have "fst (process_ipn_callback shop_env shop_world
               (PDict (notification ''np_123'' ''confirming'')) settled_shop)"
    by code_simp
  then have a: "process_ipn_callback shop_env shop_world
        (PDict (notification ''np_123'' ''confirming'')) settled_shop
     = (True, snd (process_ipn_callback shop_env shop_world
                     (PDict (notification ''np_123'' ''confirming'')) settled_shop))"
    by (simp add: prod_eq_iff)
  have b: "query_payment shop_env (dict_get (notification ''np_123'' ''confirming'') ''payment_id'')
        (db settled_shop) = Inr (Some settled_payment)"
    by code_simp
  have c: "map_payment_status (dict_get (notification ''np_123'' ''confirming'') ''payment_status'')
        = Inr CONFIRMING"
    by code_simp
  have d: "Payment_payment_status settled_payment = Some FINISHED"
    by code_simp
  from stored_status_overwritten [OF a b c] a b c d show ?thesis by simp
qed

text \<open>C3 as stated fails: after \<open>finished\<close> has been applied, a stale \<open>confirming\<close> for
  the same payment is applied too and leaves the stored status CONFIRMING.\<close>

theorem terminal_status_counterexample:
  "map Payment_payment_status (payments (db settled_shop)) = [Some FINISHED]
   \<and> fst (process_ipn_callback shop_env shop_world (PDict (notification ''np_123'' ''confirming''))
           settled_shop)
   \<and> map Payment_payment_status
        (payments (db (snd (process_ipn_callback shop_env shop_world
                              (PDict (notification ''np_123'' ''confirming'')) settled_shop))))
       = [Some CONFIRMING]"
  by (intro conjI; code_simp)

subsection \<open>The signature check of the webhook\<close>

text \<open>C4. A request without the signature header, or whose signature is not the hexadecimal
  HMAC-SHA512 of its body under the IPN secret, is answered with the handler's error value;
  the state is the one before the request, so no row is modified and
  \<open>process_ipn_callback\<close> has not been entered (\<open>calls\<close> has no new entry).\<close>

theorem invalid_signature_rejected:
  assumes "header_x_nowpayments_sig req = None
         \<or> header_x_nowpayments_sig req
              \<noteq> Some (hmac_sha512_hexdigest e (ipn_secret e) (body req))"
  shows "snd (payment_ipn e w req s) = s
       \<and> (\<exists>ex. fst (payment_ipn e w req s) = error_500 e ex)"
proof (cases "header_x_nowpayments_sig req")
  case None
  then show ?thesis by (auto simp: payment_ipn_def)
next
  case (Some signature)
  with assms have "signature \<noteq> hmac_sha512_hexdigest e (ipn_secret e) (body req)"
    by simp
  then have "\<not> verify_ipn_signature e (body req) signature"
    by (rule verify_ipn_signature_False)
  with Some show ?thesis by (auto simp: payment_ipn_def)
qed

text \<open>The theorem at a request with a forged signature.\<close>

theorem invalid_signature_rejected_witness:
  "header_x_nowpayments_sig forged_request
     \<noteq> Some (hmac_sha512_hexdigest shop_env (ipn_secret shop_env) (body forged_request))
   \<and> snd (payment_ipn shop_env shop_world forged_request shop) = shop
   \<and> (\<exists>ex. fst (payment_ipn shop_env shop_world forged_request shop) = error_500 shop_env ex)"
proof -
  have a: "header_x_nowpayments_sig forged_request
     \<noteq> Some (hmac_sha512_hexdigest shop_env (ipn_secret shop_env) (body forged_request))"
    by code_simp
  from invalid_signature_rejected [of forged_request shop_env shop_world shop] a
  show ?thesis by blast
qed

subsection \<open>The loyalty award\<close>

text \<open>C6, amended. The points of an order are the floor of its total. When they are at
  most 0, when the order has no user, or when the \<open>loyalty_points\<close> of its user is NULL,
  the handler changes no row. When they are positive and in the range of the store's
  INTEGER columns, and the order's user has \<open>loyalty_points\<close>, \<open>total_spent\<close> and
  \<open>total_orders\<close> set, then the user's \<open>loyalty_points\<close> grow by the points,
  \<open>total_spent\<close> becomes its sum with the order's total (the sum of two doubles, rounded
  as such), \<open>total_orders\<close> grows by one, no other user changes, and exactly one
  LoyaltyTransaction with these points, the order's id and a reference made of \<open>order_\<close>
  and the order's id is appended.\<close>

theorem award_loyalty_points_spec:
  "(\<lfloor>Order_total_amount ord\<rfloor> \<le> 0
    \<or> Order_user (db s) ord = None
    \<or> (\<exists>v. Order_user (db s) ord = Some v \<and> User_loyalty_points v = None)
    \<longrightarrow> db (award_loyalty_points e ord s) = db s)
   \<and> (0 < \<lfloor>Order_total_amount ord\<rfloor>
      \<and> storable_int e \<lfloor>Order_total_amount ord\<rfloor>
      \<and> Order_user (db s) ord = Some u
      \<and> User_loyalty_points u = Some lp
      \<and> User_total_spent u = Some ts
      \<and> User_total_orders u = Some n
      \<longrightarrow> db (award_loyalty_points e ord s) =
                (db s)\<lparr>users :=
                         map (\<lambda>r. if User_id r = User_id u
                                   then u\<lparr>User_loyalty_points :=
                                            Some (lp + \<lfloor>Order_total_amount ord\<rfloor>),
                                          User_total_spent :=
                                            Some (round_double e (ts + Order_total_amount ord)),
                                          User_total_orders := Some (n + 1)\<rparr>
                                   else r) (users (db s)),
                       loyalty_transactions :=
                         loyalty_transactions (db s) @
                         [\<lparr>LoyaltyTransaction_user_id = Order_user_id ord,
                           LoyaltyTransaction_order_id = Some (Order_id ord),
                           LoyaltyTransaction_points = \<lfloor>Order_total_amount ord\<rfloor>,
                           LoyaltyTransaction_type = ''earned'',
                           LoyaltyTransaction_description =
                             ''Points earned from order '' @ Order_order_number ord,
                           LoyaltyTransaction_reference =
                             Some (''order_'' @ str_nat (Order_id ord))\<rparr>]\<rparr>
          \<and> Order_user (db (award_loyalty_points e ord s)) ord =
              Some (u\<lparr>User_loyalty_points := Some (lp + \<lfloor>Order_total_amount ord\<rfloor>),
                      User_total_spent :=
                        Some (round_double e (ts + Order_total_amount ord)),
                      User_total_orders := Some (n + 1)\<rparr>))"
  (is "(?H0 \<longrightarrow> ?C0) \<and> (?H1 \<longrightarrow> ?C1)")
proof (rule conjI; rule impI)
  assume ?H0
  then show ?C0
    by (auto simp: award_loyalty_points_def enter_def Let_def py_int_floor(1))
next
  assume a: ?H1
  then have p: "py_int (Order_total_amount ord) = \<lfloor>Order_total_amount ord\<rfloor>"
    and pos: "\<not> \<lfloor>Order_total_amount ord\<rfloor> \<le> 0"
    by (simp_all add: py_int_floor(2))
  let ?u3 = "u\<lparr>User_loyalty_points := Some (lp + \<lfloor>Order_total_amount ord\<rfloor>),
                User_total_spent := Some (round_double e (ts + Order_total_amount ord)),
                User_total_orders := Some (n + 1)\<rparr>"
  from a have ou': "Order_user (db s) ord = Some u" by simp
  note ou = Order_userD [OF ou']
  have eq: "db (award_loyalty_points e ord s) =
                (db s)\<lparr>users := map (\<lambda>r. if User_id r = User_id u then ?u3 else r) (users (db s)),
                       loyalty_transactions :=
                         loyalty_transactions (db s) @
                         [\<lparr>LoyaltyTransaction_user_id = Order_user_id ord,
                           LoyaltyTransaction_order_id = Some (Order_id ord),
                           LoyaltyTransaction_points = \<lfloor>Order_total_amount ord\<rfloor>,
                           LoyaltyTransaction_type = ''earned'',
                           LoyaltyTransaction_description =
                             ''Points earned from order '' @ Order_order_number ord,
                           LoyaltyTransaction_reference =
                             Some (''order_'' @ str_nat (Order_id ord))\<rparr>]\<rparr>"
    using a pos
    by (simp add: award_loyalty_points_def enter_def Let_def p put_user_def comp_def)
  have "find (\<lambda>r. User_id r = User_id u)
          (map (\<lambda>r. if User_id r = User_id u then ?u3 else r) (users (db s))) = Some ?u3"
    by (rule find_map_replace [where key = User_id and x = u]) (simp_all add: ou)
  then have "Order_user (db (award_loyalty_points e ord s)) ord = Some ?u3"
    by (simp add: eq Order_user_def ou)
  with eq show ?C1 by simp
qed

text \<open>The theorem at the shop's order of 50.00: 50 points and one transaction of 50; and
  at the order that names no user, where no row changes.\<close>

theorem award_loyalty_points_spec_witness:
  "Order_user (db shop) shop_order = Some shop_user
   \<and> User_loyalty_points shop_user = Some 0
   \<and> User_total_spent shop_user = Some 0
   \<and> User_total_orders shop_user = Some 0
   \<and> \<lfloor>Order_total_amount shop_order\<rfloor> = 50
   \<and> storable_int shop_env 50
   \<and> Order_user (db (award_loyalty_points shop_env shop_order shop)) shop_order
       = Some (shop_user\<lparr>User_loyalty_points := Some 50, User_total_spent := Some 50,
                         User_total_orders := Some 1\<rparr>)
   \<and> loyalty_transactions (db (award_loyalty_points shop_env shop_order shop))
       = [\<lparr>LoyaltyTransaction_user_id = Some 7,
           LoyaltyTransaction_order_id = Some 1,
           LoyaltyTransaction_points = 50,
           LoyaltyTransaction_type = ''earned'',
           LoyaltyTransaction_description = ''Points earned from order ORD-20240101-ABC123'',
           LoyaltyTransaction_reference = Some ''order_1''\<rparr>]
   \<and> Order_user (db shop) userless_order = None
   \<and> db (award_loyalty_points shop_env userless_order shop) = db shop"
proof -
  have a: "Order_user (db shop) shop_order = Some shop_user" by code_simp
  have b: "User_loyalty_points shop_user = Some 0" by code_simp
  have c: "User_total_spent shop_user = Some 0" by code_simp
  have d: "User_total_orders shop_user = Some 0" by code_simp
  have f: "\<lfloor>Order_total_amount shop_order\<rfloor> = 50" by (simp add: shop_order_def)
  have h: "storable_int shop_env 50" by (simp add: shop_env_def)
  have g: "Order_total_amount shop_order = 50" "Order_user_id shop_order = Some 7"
    "Order_id shop_order = 1" "Order_order_number shop_order = ''ORD-20240101-ABC123''"
    "loyalty_transactions (db shop) = []" "str_nat 1 = ''1''"
    by code_simp+
  have r: "round_double shop_env x = x" for x
    by (simp add: shop_env_def)
  have k: "Order_user (db shop) userless_order = None" by code_simp
  have p: "0 < \<lfloor>Order_total_amount shop_order\<rfloor>
      \<and> storable_int shop_env \<lfloor>Order_total_amount shop_order\<rfloor>
      \<and> Order_user (db shop) shop_order = Some shop_user
      \<and> User_loyalty_points shop_user = Some 0
      \<and> User_total_spent shop_user = Some 0
      \<and> User_total_orders shop_user = Some 0"
    by (intro conjI a b c d) (simp_all add: f h)
  note t = award_loyalty_points_spec [where ord = shop_order and s = shop and e = shop_env
      and u = shop_user and lp = 0 and ts = 0 and n = 0,
      THEN conjunct2, THEN mp, OF p, simplified f, simplified]
  from t [THEN conjunct1] g
  have l: "loyalty_transactions (db (award_loyalty_points shop_env shop_order shop))
       = [\<lparr>LoyaltyTransaction_user_id = Some 7,
           LoyaltyTransaction_order_id = Some 1,
           LoyaltyTransaction_points = 50,
           LoyaltyTransaction_type = ''earned'',
           LoyaltyTransaction_description = ''Points earned from order ORD-20240101-ABC123'',
           LoyaltyTransaction_reference = Some ''order_1''\<rparr>]"
    by simp
  from t [THEN conjunct2] g
  have u: "Order_user (db (award_loyalty_points shop_env shop_order shop)) shop_order
       = Some (shop_user\<lparr>User_loyalty_points := Some 50, User_total_spent := Some 50,
                         User_total_orders := Some 1\<rparr>)"
    by (simp add: r)
  have n: "db (award_loyalty_points shop_env userless_order shop) = db shop"
    by (rule award_loyalty_points_spec [where ord = userless_order and s = shop
          and e = shop_env, THEN conjunct1, THEN mp]) (simp add: k)
  from a b c d f h l u k n show ?thesis by simp
qed

text \<open>C6 as stated fails where the order's user is missing or lacks a counter. For the
  order of 50.00 that names no user the handler runs and changes no row. For the order of
  50.00 whose user has no \<open>total_spent\<close> the user gains the 50 points, \<open>total_orders\<close>
  stays 0, and no LoyaltyTransaction is appended.\<close>

theorem award_loyalty_points_counterexample:
  "\<lfloor>Order_total_amount userless_order\<rfloor> = 50
   \<and> calls (award_loyalty_points shop_env userless_order shop) = [Call_award_loyalty_points 1]
   \<and> db (award_loyalty_points shop_env userless_order shop) = db shop
   \<and> \<lfloor>Order_total_amount shop_order\<rfloor> = 50
   \<and> Order_user (db unspent_shop) shop_order = Some (shop_user\<lparr>User_total_spent := None\<rparr>)
   \<and> calls (award_loyalty_points shop_env shop_order unspent_shop)
       = [Call_award_loyalty_points 1]
   \<and> users (db (award_loyalty_points shop_env shop_order unspent_shop))
       = [shop_user\<lparr>User_loyalty_points := Some 50, User_total_spent := None\<rparr>]
   \<and> loyalty_transactions (db (award_loyalty_points shop_env shop_order unspent_shop)) = []"
proof -
  have "\<lfloor>Order_total_amount userless_order\<rfloor> = 50"
    by (simp add: userless_order_def shop_order_def)
  moreover have "\<lfloor>Order_total_amount shop_order\<rfloor> = 50"
    by (simp add: shop_order_def)
  moreover have "calls (award_loyalty_points shop_env userless_order shop)
       = [Call_award_loyalty_points 1]"
    by code_simp
  moreover have "db (award_loyalty_points shop_env userless_order shop) = db shop"
    by code_simp
  moreover have
    "Order_user (db unspent_shop) shop_order = Some (shop_user\<lparr>User_total_spent := None\<rparr>)"
    by code_simp
  moreover have "calls (award_loyalty_points shop_env shop_order unspent_shop)
       = [Call_award_loyalty_points 1]"
    by code_simp
  moreover have "users (db (award_loyalty_points shop_env shop_order unspent_shop))
       = [shop_user\<lparr>User_loyalty_points := Some 50, User_total_spent := None\<rparr>]"
    by code_simp
  moreover have
    "loyalty_transactions (db (award_loyalty_points shop_env shop_order unspent_shop)) = []"
    by code_simp
  ultimately show ?thesis by blast
qed

subsection \<open>Digital delivery\<close>

lemma expiry_date_of_Inr:
  "expiry_date_of w i product = Inr expiry_date \<Longrightarrow>
   expiry_date = now_item w i
                 + or_default (Product_download_expiry_days product) 30 * microseconds_per_day"
  by (auto simp: expiry_date_of_def timedelta_days_def datetime_add_def Let_def
      split: if_splits sum.splits)

lemma delivery_loop_step:
  assumes "delivery_loop e w i (item # items) d = Inr d'"
  obtains product where "OrderItem_product d item = Some product"
    and "delivery_loop e w (Suc i) items
           (if Product_product_type product = Some DIGITAL
            then put_item (delivered e w i product item) d else d) = Inr d'"
proof (cases "OrderItem_product d item")
  case None
  with assms show ?thesis by simp
next
  case (Some product)
  show ?thesis
  proof (cases "Product_product_type product = Some DIGITAL")
    case False
    with Some assms that [of product] show ?thesis by simp
  next
    case True
    show ?thesis
    proof (cases "expiry_date_of w i product")
      case (Inl a)
      with Some True assms show ?thesis by simp
    next
      case (Inr expiry_date)
      note x = expiry_date_of_Inr [OF Inr]
      have "item\<lparr>OrderItem_download_links := Some (download_links_of e w i product expiry_date),
                 OrderItem_download_expires_at := Some expiry_date\<rparr>
            = delivered e w i product item"
        using True x
        by (cases "Product_digital_file_url product")
           (simp_all add: delivered_def download_links_of_def Let_def)
      with Some True Inr assms that [of product] show ?thesis by (simp add: Let_def)
    qed
  qed
qed

lemma delivery_loop_untouched:
  assumes "delivery_loop e w i items d = Inr d'" and "k \<notin> OrderItem_id ` set items"
  shows "find (\<lambda>r. OrderItem_id r = k) (order_items d')
         = find (\<lambda>r. OrderItem_id r = k) (order_items d)"
  using assms
proof (induction items arbitrary: i d)
  case Nil
  then show ?case by simp
next
  case (Cons item items)
  from Cons.prems(1) obtain product where
    r: "delivery_loop e w (Suc i) items
           (if Product_product_type product = Some DIGITAL
            then put_item (delivered e w i product item) d else d) = Inr d'"
    by (rule delivery_loop_step)
  from Cons.prems(2) have k: "k \<noteq> OrderItem_id item" "k \<notin> OrderItem_id ` set items"
    by auto
  have id: "OrderItem_id (delivered e w i product item) = OrderItem_id item"
    by (simp add: delivered_def Let_def)
  from Cons.IH [OF r k(2)] k(1) id show ?case
    by (simp add: put_item_def find_map_other [where key = OrderItem_id])
qed

lemma delivery_loop_item:
  assumes "delivery_loop e w i items d = Inr d'"
    and "distinct (map OrderItem_id items)"
    and "\<forall>x \<in> set items. find (\<lambda>r. OrderItem_id r = OrderItem_id x) (order_items d) = Some x"
    and "j < length items"
    and "OrderItem_product d (items ! j) = Some product"
  shows "find (\<lambda>r. OrderItem_id r = OrderItem_id (items ! j)) (order_items d')
         = Some (delivered e w (i + j) product (items ! j))"
  using assms
proof (induction items arbitrary: i d j)
  case Nil
  then show ?case by simp
next
  case (Cons item items)
  from Cons.prems(1) obtain product0 where
    p0: "OrderItem_product d item = Some product0"
    and r: "delivery_loop e w (Suc i) items
           (if Product_product_type product0 = Some DIGITAL
            then put_item (delivered e w i product0 item) d else d) = Inr d'"
    by (rule delivery_loop_step)
  let ?d1 = "if Product_product_type product0 = Some DIGITAL
            then put_item (delivered e w i product0 item) d else d"
  have id: "OrderItem_id (delivered e w i product0 item) = OrderItem_id item"
    by (simp add: delivered_def Let_def)
  from Cons.prems(2) have fresh: "OrderItem_id item \<notin> OrderItem_id ` set items"
    and dist: "distinct (map OrderItem_id items)"
    by auto
  from Cons.prems(3)
  have here: "find (\<lambda>r. OrderItem_id r = OrderItem_id item) (order_items d) = Some item"
    by simp
  show ?case
  proof (cases j)
    case 0
    with Cons.prems(5) p0 have same: "product = product0" by simp
    have "find (\<lambda>r. OrderItem_id r = OrderItem_id item) (order_items ?d1)
          = Some (delivered e w i product0 item)"
    proof (cases "Product_product_type product0 = Some DIGITAL")
      case True
      from find_map_replace [where key = OrderItem_id, OF here id] True id
      show ?thesis by (simp add: put_item_def)
    next
      case False
      with here show ?thesis by (simp add: delivered_def)
    qed
    with delivery_loop_untouched [OF r fresh] 0 same show ?thesis by simp
  next
    case (Suc j')
    have inv: "\<forall>x \<in> set items.
        find (\<lambda>r. OrderItem_id r = OrderItem_id x) (order_items ?d1) = Some x"
    proof
      fix x assume x: "x \<in> set items"
      have "OrderItem_id x \<noteq> OrderItem_id item"
      proof
        assume eq: "OrderItem_id x = OrderItem_id item"
        from x have "OrderItem_id x \<in> OrderItem_id ` set items" by (rule imageI)
        with eq fresh show False by simp
      qed
      then have neq: "OrderItem_id x \<noteq> OrderItem_id (delivered e w i product0 item)"
        by (simp add: id)
      have "x \<in> set (item # items)" using x by simp
      with Cons.prems(3)
      have fx: "find (\<lambda>r. OrderItem_id r = OrderItem_id x) (order_items d) = Some x"
        by (rule bspec)
      have "find (\<lambda>r. OrderItem_id r = OrderItem_id x) (order_items ?d1)
            = find (\<lambda>r. OrderItem_id r = OrderItem_id x) (order_items d)"
        using find_map_other [where key = OrderItem_id, OF neq refl, of "order_items d"]
        by (simp add: put_item_def)
      with fx show "find (\<lambda>r. OrderItem_id r = OrderItem_id x) (order_items ?d1) = Some x"
        by simp
    qed
    have "products ?d1 = products d" by (simp add: put_item_def)
    then have "OrderItem_product ?d1 (items ! j') = OrderItem_product d (items ! j')"
      by (rule OrderItem_product_cong)
    with Cons.prems(5) Suc have pr: "OrderItem_product ?d1 (items ! j') = Some product"
      by simp
    from Cons.prems(4) Suc have "j' < length items" by simp
    from Cons.IH [OF r dist inv this pr] Suc show ?thesis by simp
  qed
qed

text \<open>The loop runs to its end when every line item has a product whose expiry date can
  be represented in every round.\<close>

lemma delivery_loop_completes:
  assumes "\<forall>x \<in> set items. \<exists>product. OrderItem_product d x = Some product
             \<and> (\<forall>i. \<exists>t. expiry_date_of w i product = Inr t)"
  shows "\<exists>d'. delivery_loop e w i items d = Inr d'"
  using assms
proof (induction items arbitrary: i d)
  case Nil
  then show ?case by simp
next
  case (Cons item items)
  from Cons.prems obtain product where
    p: "OrderItem_product d item = Some product"
    and x: "\<forall>i. \<exists>t. expiry_date_of w i product = Inr t"
    by auto
  from x obtain t where t: "expiry_date_of w i product = Inr t" by blast
  let ?d1 = "put_item (item\<lparr>OrderItem_download_links := Some (download_links_of e w i product t),
                             OrderItem_download_expires_at := Some t\<rparr>) d"
  have rest: "\<forall>x \<in> set items. \<exists>product. OrderItem_product d1 x = Some product
             \<and> (\<forall>i. \<exists>t. expiry_date_of w i product = Inr t)"
    if "products d1 = products d" for d1
  proof
    fix y assume "y \<in> set items"
    with Cons.prems obtain q where "OrderItem_product d y = Some q"
      and "\<forall>i. \<exists>t. expiry_date_of w i q = Inr t"
      by auto
    moreover have "OrderItem_product d1 y = OrderItem_product d y"
      using that by (rule OrderItem_product_cong)
    ultimately show "\<exists>product. OrderItem_product d1 y = Some product
             \<and> (\<forall>i. \<exists>t. expiry_date_of w i product = Inr t)"
      by simp
  qed
  show ?case
  proof (cases "Product_product_type product = Some DIGITAL")
    case True
    have "products ?d1 = products d" by (simp add: put_item_def)
    from Cons.IH [OF rest [OF this], of "Suc i"] p t True show ?thesis
      by (simp add: Let_def)
  next
    case False
    from Cons.IH [OF rest [OF refl], of "Suc i"] p False show ?thesis by simp
  qed
qed

text \<open>C7, amended. When the delivery loop of an order runs to its end (no round raises) and
  the primary keys of the line items are unique: the \<open>j\<close>-th line item of the order is
  left as \<open>delivered\<close> says. If its product is digital, \<open>download_expires_at\<close> is the
  time read in round \<open>j\<close> plus \<open>download_expiry_days\<close> days (30 when the column is NULL
  or 0), and \<open>download_links\<close> holds one link with a fresh token, that expiry and
  \<open>download_limit\<close> (5 when the column is NULL or 0) if the product has a non-empty
  \<open>digital_file_url\<close>, and no link at all if it has none. If its product is not digital
  the line item is unchanged, and so is every line item of another order.\<close>

theorem process_digital_delivery_items:
  assumes "distinct (map OrderItem_id (order_items (db s)))"
    and "delivery_loop e w 0 (Order_items (db s) ord) (db s) = Inr d'"
    and "j < length (Order_items (db s) ord)"
    and "OrderItem_product (db s) (Order_items (db s) ord ! j) = Some product"
  shows "find (\<lambda>r. OrderItem_id r = OrderItem_id (Order_items (db s) ord ! j))
           (order_items (db (process_digital_delivery e w ord s)))
         = Some (delivered e w j product (Order_items (db s) ord ! j))
       \<and> (\<forall>k. k \<notin> OrderItem_id ` set (Order_items (db s) ord) \<longrightarrow>
            find (\<lambda>r. OrderItem_id r = k) (order_items (db (process_digital_delivery e w ord s)))
            = find (\<lambda>r. OrderItem_id r = k) (order_items (db s)))"
proof -
  let ?items = "Order_items (db s) ord"
  have d': "db (process_digital_delivery e w ord s) = d'"
    using assms(2) by (simp add: process_digital_delivery_def enter_def)
  have dist: "distinct (map OrderItem_id ?items)"
    using assms(1) by (simp add: Order_items_def distinct_map_filter)
  have inv: "\<forall>x \<in> set ?items.
      find (\<lambda>r. OrderItem_id r = OrderItem_id x) (order_items (db s)) = Some x"
    using assms(1) by (auto simp: Order_items_def intro: find_distinct_key)
  from delivery_loop_item [OF assms(2) dist inv assms(3,4)] delivery_loop_untouched [OF assms(2)]
  show ?thesis by (simp add: d')
qed

text \<open>The theorem at the shop's only line item.\<close>

theorem process_digital_delivery_items_witness:
  "distinct (map OrderItem_id (order_items (db shop)))
   \<and> delivery_loop shop_env shop_world 0 (Order_items (db shop) shop_order) (db shop)
       = Inr (db (process_digital_delivery shop_env shop_world shop_order shop))
   \<and> Order_items (db shop) shop_order ! 0 = shop_item
   \<and> OrderItem_product (db shop) shop_item = Some shop_product
   \<and> find (\<lambda>r. OrderItem_id r = OrderItem_id shop_item)
        (order_items (db (process_digital_delivery shop_env shop_world shop_order shop)))
       = Some (shop_item
                 \<lparr>OrderItem_download_links :=
                    Some [\<lparr>url = ''https://shop.example/download/c0ffee'', token = ''c0ffee'',
                           expires_at = 2592000002000, download_limit = 5\<rparr>],
                  OrderItem_download_expires_at := Some 2592000002000\<rparr>)"
proof -
  have a: "distinct (map OrderItem_id (order_items (db shop)))" by code_simp
  have b: "delivery_loop shop_env shop_world 0 (Order_items (db shop) shop_order) (db shop)
       = Inr (db (process_digital_delivery shop_env shop_world shop_order shop))"
    by code_simp
  have c: "0 < length (Order_items (db shop) shop_order)" by code_simp
  have i: "Order_items (db shop) shop_order ! 0 = shop_item" by code_simp
  have d: "OrderItem_product (db shop) (Order_items (db shop) shop_order ! 0) = Some shop_product"
    by code_simp
  have f: "delivered shop_env shop_world 0 shop_product shop_item
           = shop_item
                 \<lparr>OrderItem_download_links :=
                    Some [\<lparr>url = ''https://shop.example/download/c0ffee'', token = ''c0ffee'',
                           expires_at = 2592000002000, download_limit = 5\<rparr>],
                  OrderItem_download_expires_at := Some 2592000002000\<rparr>"
    by code_simp
  from process_digital_delivery_items [OF a b c d] a b i d f show ?thesis by simp
qed

text \<open>C7 as stated fails for a digital product without a file: the handler runs over the
  order's only line item, whose product is digital, and the item receives no token.\<close>

theorem digital_delivery_counterexample:
  "Order_items (db urlless_shop) shop_order = [shop_item]
   \<and> map Product_product_type (products (db urlless_shop)) = [Some DIGITAL]
   \<and> OrderItem_product_id shop_item = Some 3
   \<and> map Product_id (products (db urlless_shop)) = [3]
   \<and> map OrderItem_download_links
        (order_items (db (process_digital_delivery shop_env shop_world shop_order urlless_shop)))
       = [Some []]"
  by (intro conjI; code_simp)

subsection \<open>Unknown payments\<close>

text \<open>The query for a string that no stored payment has as its external identifier
  finds none.\<close>

lemma query_payment_unknown:
  assumes "\<forall>p \<in> set (payments d). Payment_payment_id p \<noteq> Some pid"
  shows "query_payment e (PStr pid) d = Inr None"
  using assms by (simp add: query_payment_def find_None_iff)

text \<open>C8. A notification whose \<open>payment_id\<close>, whatever value it is, is matched by no stored
  payment (the query finds no row, or the store refuses the value) is refused:
  \<open>process_ipn_callback\<close> returns \<open>False\<close> and every row is as before.\<close>

theorem unknown_payment_id_rejected:
  assumes "\<forall>payment. query_payment e (dict_get d ''payment_id'') (db s) \<noteq> Inr (Some payment)"
  shows "process_ipn_callback e w (PDict d) s
           = (False, \<lparr>db = db s, calls = calls s @ [Call_process_ipn_callback]\<rparr>)"
proof (cases "query_payment e (dict_get d ''payment_id'') (db s)")
  case (Inl ex)
  then show ?thesis
    by (simp add: process_ipn_callback_def Let_def enter_def state_update_eq)
next
  case (Inr found)
  with assms have "found = None" by (cases found) simp_all
  with Inr show ?thesis
    by (simp add: process_ipn_callback_def Let_def enter_def state_update_eq)
qed

text \<open>The theorem at the shop, for the payment id \<open>np_unknown\<close>.\<close>

theorem unknown_payment_id_rejected_witness:
  "dict_get (notification ''np_unknown'' ''finished'') ''payment_id'' = PStr ''np_unknown''
   \<and> Some ''np_unknown'' \<notin> Payment_payment_id ` set (payments (db shop))
   \<and> query_payment shop_env (dict_get (notification ''np_unknown'' ''finished'') ''payment_id'')
        (db shop) = Inr None
   \<and> process_ipn_callback shop_env shop_world (PDict (notification ''np_unknown'' ''finished'')) shop
       = (False, \<lparr>db = db shop, calls = calls shop @ [Call_process_ipn_callback]\<rparr>)"
proof -
  have a: "dict_get (notification ''np_unknown'' ''finished'') ''payment_id'' = PStr ''np_unknown''"
    by code_simp
  have c: "Some ''np_unknown'' \<notin> Payment_payment_id ` set (payments (db shop))"
    by code_simp
  have q: "query_payment shop_env (dict_get (notification ''np_unknown'' ''finished'')
             ''payment_id'') (db shop) = Inr None"
    by code_simp
  then have b: "\<forall>payment. query_payment shop_env
             (dict_get (notification ''np_unknown'' ''finished'') ''payment_id'') (db shop)
           \<noteq> Inr (Some payment)"
    by simp
  show ?thesis
    by (intro conjI a c q unknown_payment_id_rejected [OF b])
qed

subsection \<open>The status code of the webhook\<close>

text \<open>C9 fails on the code. For a request without signature the handler returns the pair of
  an error object and 500, and for a signed notification without \<open>payment_id\<close> the pair
  of an error object and 400, written as for a framework that reads a returned pair as
  body and status; FastAPI encodes the pair as an array and answers with status 200.\<close>

theorem webhook_errors_answered_200:
  "fastapi_response (fst (payment_ipn shop_env shop_world unsigned_request shop))
   = (200, PList [PDict [(''status'', PStr ''error''), (''message'', PStr [])], PInt 500])
   \<and> verify_ipn_signature shop_env (body signed_request) ''0fs3cret''
   \<and> fastapi_response (fst (payment_ipn shop_env shop_world signed_request shop))
       = (200, PList [PDict [(''status'', PStr ''error'')], PInt 400])"
  by (intro conjI; code_simp)

subsection \<open>Unrecognized statuses\<close>





end
